theory Spec2Isabelle
  imports Complex_Main "HOL-Library.AList"
begin

section \<open>Common values\<close>

text \<open>
  The ways a call can stop without returning: \<open>Fatal\<close> is a call of
  \<^verbatim>\<open>Fatalf\<close> or a \<^verbatim>\<open>FatalOnError\<close> on a non-nil error,
  \<open>Panic\<close> is a Go run-time panic (a nil dereference, a failed single-value type
  assertion). The string names the place.
\<close>

datatype failure = Fatal string | Panic string

section \<open>Checkpoint resolution (ds.go, FetchRaw and Enrich)\<close>

text \<open>
  A \<^verbatim>\<open>time.Time\<close> is an instant; only its order is used here, so an instant
  is an integer. Offsets are \<^verbatim>\<open>float64\<close> in the source; the ones compared here
  come out of a JSON number or passed a \<^verbatim>\<open>>= 0.0\<close> test, so they are ordinary
  numbers and are modelled as reals. \<^verbatim>\<open>*time.Time\<close> is an option.
  The type \<^verbatim>\<open>Ctx\<close> is not declared in the files at hand; the record holds
  the fields that the functions modelled here read or write.
\<close>

type_synonym instant = int

record Ctx =
  DateFrom :: "instant option"
  DateTo :: "instant option"
  OffsetFrom :: real
  OffsetTo :: real
  DateFromDetected :: bool
  OffsetFromDetected :: bool
  ESURL :: string
  RawIndex :: string
  RichIndex :: string
  Debug :: int
  ESScrollWait :: string
  ESScrollWaitSecs :: real

record DS =
  SupportDateFrom :: bool
  SupportOffsetFrom :: bool

text \<open>
  The part of \<^verbatim>\<open>FetchRaw\<close> between the mapping set-up and the category check
  (ds.go lines 959-1006). \<open>rawLastUpdate\<close> and \<open>rawLastOffset\<close> are what
  \<^verbatim>\<open>GetLastUpdate(ctx, ds, true)\<close> and \<^verbatim>\<open>GetLastOffset(ctx, ds, true)\<close>
  return from the raw index (\<open>-1\<close> when the index holds no offset).
\<close>

definition FetchRaw_date :: "DS \<Rightarrow> instant option \<Rightarrow> Ctx \<Rightarrow> instant option \<times> Ctx" where
  "FetchRaw_date ds rawLastUpdate ctx =
     (if SupportDateFrom ds then
        (let lastUpdate = (case DateFrom ctx of None \<Rightarrow> rawLastUpdate | Some d \<Rightarrow> Some d) in
         case lastUpdate of
           Some lu \<Rightarrow>
             (let ctx1 = (if DateFrom ctx = None then ctx\<lparr>DateFromDetected := True\<rparr> else ctx)
              in (lastUpdate, ctx1\<lparr>DateFrom := lastUpdate\<rparr>))
         | None \<Rightarrow> (lastUpdate, ctx))
      else (None, ctx))"

definition FetchRaw_offset :: "DS \<Rightarrow> real \<Rightarrow> Ctx \<Rightarrow> real option \<times> Ctx" where
  "FetchRaw_offset ds rawLastOffset ctx =
     (if SupportOffsetFrom ds then
        (let offset0 = (if OffsetFrom ctx \<ge> 0 then Some (OffsetFrom ctx) else None);
             offset = (case offset0 of
                         None \<Rightarrow> (if rawLastOffset \<ge> 0 then Some rawLastOffset else None)
                       | Some v \<Rightarrow> Some v) in
         case offset of
           Some off \<Rightarrow>
             (let ctx1 = (if OffsetFrom ctx < 0 then ctx\<lparr>OffsetFromDetected := True\<rparr> else ctx)
              in (offset, ctx1\<lparr>OffsetFrom := off\<rparr>))
         | None \<Rightarrow> (offset, ctx))
      else (None, ctx))"

definition FetchRaw_checkpoint :: "DS \<Rightarrow> instant option \<Rightarrow> real \<Rightarrow> Ctx \<Rightarrow> failure + Ctx" where
  "FetchRaw_checkpoint ds rawLastUpdate rawLastOffset ctx =
     (if DateFrom ctx \<noteq> None \<and> OffsetFrom ctx \<ge> 0
      then Inl (Fatal ''you cannot use both date from and offset from'')
      else if DateTo ctx \<noteq> None \<and> OffsetTo ctx \<ge> 0
      then Inl (Fatal ''you cannot use both date to and offset to'')
      else
        (let (lastUpdate, ctx1) = FetchRaw_date ds rawLastUpdate ctx;
             (offset, ctx2) = FetchRaw_offset ds rawLastOffset ctx1
         in if lastUpdate \<noteq> None \<and> offset \<noteq> None
            then Inl (Fatal ''you cannot use both date from and offset from'')
            else Inr ctx2))"

text \<open>
  The checkpoint part of \<^verbatim>\<open>Enrich\<close> (ds.go lines 1033-1078).
  \<open>richLastUpdate\<close> and \<open>richLastOffset\<close> are what \<^verbatim>\<open>GetLastUpdate(ctx, ds, false)\<close>
  and \<^verbatim>\<open>GetLastOffset(ctx, ds, false)\<close> return from the rich index.
  \<^verbatim>\<open>(*lastUpdate).After(*ctx.DateFrom)\<close> dereferences \<^verbatim>\<open>ctx.DateFrom\<close>:
  a nil pointer there is a panic.
\<close>

definition Enrich_date :: "DS \<Rightarrow> instant option \<Rightarrow> Ctx \<Rightarrow> failure + Ctx" where
  "Enrich_date ds richLastUpdate ctx =
     (if SupportDateFrom ds then
        (if DateFromDetected ctx then
           (case richLastUpdate of
              None \<Rightarrow> Inr (ctx\<lparr>DateFrom := None\<rparr>)
            | Some lu \<Rightarrow>
                (case DateFrom ctx of
                   None \<Rightarrow> Inl (Panic ''nil pointer dereference: ctx.DateFrom'')
                 | Some df \<Rightarrow>
                     (if lu > df then Inr (ctx\<lparr>DateFrom := DateFrom ctx\<rparr>)
                      else Inr (ctx\<lparr>DateFrom := Some lu\<rparr>))))
         else Inr (ctx\<lparr>DateFrom := DateFrom ctx\<rparr>))
      else Inr ctx)"

definition Enrich_offset :: "DS \<Rightarrow> real \<Rightarrow> Ctx \<Rightarrow> Ctx" where
  "Enrich_offset ds richLastOffset ctx =
     (if SupportOffsetFrom ds then
        (let offset =
               (if OffsetFromDetected ctx then
                  (if richLastOffset \<ge> 0 then
                     (if richLastOffset > OffsetFrom ctx then Some (OffsetFrom ctx)
                      else Some richLastOffset)
                   else None)
                else (if OffsetFrom ctx \<ge> 0 then Some (OffsetFrom ctx) else None))
         in case offset of
              Some off \<Rightarrow> ctx\<lparr>OffsetFrom := off\<rparr>
            | None \<Rightarrow> ctx\<lparr>OffsetFrom := -1\<rparr>)
      else ctx)"

definition Enrich_checkpoint :: "DS \<Rightarrow> instant option \<Rightarrow> real \<Rightarrow> Ctx \<Rightarrow> failure + Ctx" where
  "Enrich_checkpoint ds richLastUpdate richLastOffset ctx =
     (case Enrich_date ds richLastUpdate ctx of
        Inl f \<Rightarrow> Inl f
      | Inr ctx1 \<Rightarrow> Inr (Enrich_offset ds richLastOffset ctx1))"

section \<open>Identifier generator (uuid.go, and the uncached functions of ds.go)\<close>

text \<open>
  A Go string is a sequence of bytes, here a \<^typ>\<open>string\<close>. The constants
  \<^verbatim>\<open>Nil\<close> and \<^verbatim>\<open>None\<close> are not declared in the files at hand; the comment of
  \<^verbatim>\<open>UUIDAffs\<close> gives their values: ``if argument is Nil "<nil>" replaces with "None"''.
\<close>

definition Nil_s :: string where
  "Nil_s = ''<nil>''"

definition None_s :: string where
  "None_s = ''None''"

text \<open>\<^verbatim>\<open>strings.Join(elems, sep)\<close>.\<close>

fun Join :: "string list \<Rightarrow> string \<Rightarrow> string" where
  "Join [] sep = []"
| "Join [a] sep = a"
| "Join (a # b # rest) sep = a @ sep @ Join (b # rest) sep"

text \<open>
  \<^verbatim>\<open>stripF\<close> runs the chain of \<^verbatim>\<open>norm.NFKD\<close> and
  \<^verbatim>\<open>transform.RemoveFunc(isOk)\<close>. The normaliser belongs to
  \<^verbatim>\<open>golang.org/x/text\<close> and is the parameter \<open>nfkd\<close>. The removal drops every
  rune \<open>r\<close> with \<open>r < 32 \<or> r \<ge> 127\<close>. On the bytes of a UTF-8 string that is: drop every
  byte below 32 and every byte from 127 on, since each byte of a rune beyond ASCII (and each
  byte that decodes to the error rune) is at least 128.
\<close>

definition isOk :: "char \<Rightarrow> bool" where
  "isOk r = ((of_char r :: nat) < 32 \<or> (of_char r :: nat) \<ge> 127)"

definition stripF :: "(string \<Rightarrow> string) \<Rightarrow> string \<Rightarrow> string" where
  "stripF nfkd str = filter (\<lambda>r. \<not> isOk r) (nfkd str)"

text \<open>
  \<^verbatim>\<open>strings.ToLower\<close>, on the only strings it is applied to here: joins of stripped
  arguments and colons, whose bytes all lie in 32..126. There it maps \<open>A..Z\<close> to \<open>a..z\<close>
  and leaves every other byte.
\<close>

definition ToLower_byte :: "char \<Rightarrow> char" where
  "ToLower_byte c =
     (if 65 \<le> (of_char c :: nat) \<and> (of_char c :: nat) \<le> 90 then char_of ((of_char c :: nat) + 32) else c)"

definition ToLower :: "string \<Rightarrow> string" where
  "ToLower s = map ToLower_byte s"

text \<open>
  The loop of \<^verbatim>\<open>UUIDNonEmpty\<close> over its arguments; \<open>arg\<close> is the string built
  so far. The separator is added only when \<open>arg\<close> is not empty.
\<close>

fun UUIDNonEmpty_loop :: "(string \<Rightarrow> string) \<Rightarrow> string \<Rightarrow> string list \<Rightarrow> failure + string" where
  "UUIDNonEmpty_loop nfkd arg [] = Inr arg"
| "UUIDNonEmpty_loop nfkd arg (a # rest) =
     (if a = [] then Inl (Fatal ''UUIDNonEmpty - empty argument(s) not allowed'')
      else UUIDNonEmpty_loop nfkd ((if arg \<noteq> [] then arg @ '':'' else arg) @ stripF nfkd a) rest)"

text \<open>
  \<^verbatim>\<open>UUIDNonEmpty\<close> of ds.go: no cache. \<open>sha1hex\<close> stands for
  \<^verbatim>\<open>hex.EncodeToString(sha1(...))\<close> of the standard library.
\<close>

definition UUIDNonEmpty_nocache :: "(string \<Rightarrow> string) \<Rightarrow> (string \<Rightarrow> string) \<Rightarrow> string list \<Rightarrow> failure + string" where
  "UUIDNonEmpty_nocache nfkd sha1hex args =
     (case UUIDNonEmpty_loop nfkd [] args of
        Inl f \<Rightarrow> Inl f
      | Inr arg \<Rightarrow> Inr (sha1hex arg))"

text \<open>
  \<^verbatim>\<open>UUIDNonEmpty\<close> of uuid.go, with the package-level cache
  \<^verbatim>\<open>uuidsCacheNonEmpty\<close> passed in and returned.
\<close>

type_synonym uuid_cache = "string \<rightharpoonup> string"

definition UUIDNonEmpty :: "(string \<Rightarrow> string) \<Rightarrow> (string \<Rightarrow> string) \<Rightarrow> uuid_cache \<Rightarrow> string list
    \<Rightarrow> (failure + string) \<times> uuid_cache" where
  "UUIDNonEmpty nfkd sha1hex cache args =
     (let k = Join args '':'' in
      case cache k of
        Some h \<Rightarrow> (Inr h, cache)
      | None \<Rightarrow>
          (case UUIDNonEmpty_loop nfkd [] args of
             Inl f \<Rightarrow> (Inl f, cache)
           | Inr arg \<Rightarrow> (let h = sha1hex arg in (Inr h, cache(k \<mapsto> h)))))"

text \<open>The loop of \<^verbatim>\<open>UUIDAffs\<close>; \<open>i\<close> is the index of the argument \<open>a\<close>.\<close>

fun UUIDAffs_loop :: "(string \<Rightarrow> string) \<Rightarrow> nat \<Rightarrow> string \<Rightarrow> string list \<Rightarrow> failure + string" where
  "UUIDAffs_loop nfkd i arg [] = Inr arg"
| "UUIDAffs_loop nfkd i arg (a # rest) =
     (if i = 0 \<and> a = [] then Inl (Fatal ''UUIDAffs - empty first argument not allowed'')
      else
        (let a1 = (if a = Nil_s then None_s else a) in
         UUIDAffs_loop nfkd (Suc i) ((if arg \<noteq> [] then arg @ '':'' else arg) @ stripF nfkd a1) rest))"

definition UUIDAffs_nocache :: "(string \<Rightarrow> string) \<Rightarrow> (string \<Rightarrow> string) \<Rightarrow> string list \<Rightarrow> failure + string" where
  "UUIDAffs_nocache nfkd sha1hex args =
     (case UUIDAffs_loop nfkd 0 [] args of
        Inl f \<Rightarrow> Inl f
      | Inr arg \<Rightarrow> Inr (sha1hex (ToLower arg)))"

definition UUIDAffs :: "(string \<Rightarrow> string) \<Rightarrow> (string \<Rightarrow> string) \<Rightarrow> uuid_cache \<Rightarrow> string list
    \<Rightarrow> (failure + string) \<times> uuid_cache" where
  "UUIDAffs nfkd sha1hex cache args =
     (let k = Join args '':'' in
      case cache k of
        Some h \<Rightarrow> (Inr h, cache)
      | None \<Rightarrow>
          (case UUIDAffs_loop nfkd 0 [] args of
             Inl f \<Rightarrow> (Inl f, cache)
           | Inr arg \<Rightarrow> (let h = sha1hex (ToLower arg) in (Inr h, cache(k \<mapsto> h)))))"

text \<open>
  A run of further \<^verbatim>\<open>UUIDAffs\<close> calls in the same process, each starting from the
  cache the one before left. A fatal call ends the process: there is no cache after it.
\<close>

fun UUIDAffs_calls :: "(string \<Rightarrow> string) \<Rightarrow> (string \<Rightarrow> string) \<Rightarrow> uuid_cache \<Rightarrow> string list list
    \<Rightarrow> uuid_cache option" where
  "UUIDAffs_calls nfkd sha1hex cache [] = Some cache"
| "UUIDAffs_calls nfkd sha1hex cache (args # calls) =
     (case UUIDAffs nfkd sha1hex cache args of
        (Inl f, c) \<Rightarrow> None
      | (Inr h, c) \<Rightarrow> UUIDAffs_calls nfkd sha1hex c calls)"

section \<open>Dynamic values\<close>

text \<open>
  A value of type \<^verbatim>\<open>interface{}\<close>, as far as the code tells its dynamic types apart:
  nil, the JSON values as \<^verbatim>\<open>jsoniter.Unmarshal\<close> builds them, an \<^verbatim>\<open>int\<close>,
  a \<^verbatim>\<open>[]byte\<close> and a \<^verbatim>\<open>[]string\<close>. A \<^verbatim>\<open>map[string]interface{}\<close>
  is an association list, read with \<^const>\<open>map_of\<close>.
\<close>

datatype iface =
    INil
  | IBool bool
  | INum real
  | IInt int
  | IStr string
  | IBytes string
  | IStrs "string list"
  | IArr "iface list"
  | IMap "(string \<times> iface) list"

section \<open>Transport layer (ds.go, Request)\<close>

datatype http_method = Get | Post | Put | Delete

record request =
  r_method :: http_method
  r_url :: string
  r_headers :: "(string \<times> string) list"
  r_payload :: string

text \<open>
  What the network does with a request: \<^verbatim>\<open>http.NewRequest\<close> fails,
  \<^verbatim>\<open>Do\<close> fails, reading the body fails, or a response with a status and a body
  comes back.
\<close>

datatype http_reply = NewRequestError | DoError | ReadError | Response int string

text \<open>The errors that the modelled functions build with \<^verbatim>\<open>fmt.Errorf\<close> or pass on.\<close>

datatype err =
    NewRequestErr
  | DoRequestErr
  | ReadBodyErr
  | UnmarshalErr
  | StatusErr
  | StatusNotSuccessErr
  | MarshalErr
  | MissingProperty string
  | MissingScrollID
  | MissingHits
  | CallbackErr string
  | NotAString
  | TimeParseErr

text \<open>
  A set of status ranges \<^verbatim>\<open>map[[2]int]struct{}\<close> is a list of pairs; the loops
  over it only ask whether some range holds the status.
\<close>

fun status_hit :: "(int \<times> int) list \<Rightarrow> int \<Rightarrow> bool" where
  "status_hit [] status = False"
| "status_hit (r # rs) status = ((status \<ge> fst r \<and> status \<le> snd r) \<or> status_hit rs status)"

text \<open>
  The server is a function \<open>srv\<close> from the requests made so far and the request at hand
  to a reply, so its answers may depend on everything sent before. \<^verbatim>\<open>Request\<close>
  takes the list of requests made so far and returns it with its own request added
  (a request that \<^verbatim>\<open>http.NewRequest\<close> rejects is listed too: the list is of
  the calls of \<^verbatim>\<open>Request\<close>).
  \<open>Unmarshal\<close> is \<^verbatim>\<open>jsoniter.Unmarshal\<close> into an \<^verbatim>\<open>interface{}\<close>,
  \<open>None\<close> when decoding fails. The results are the named results
  \<^verbatim>\<open>(result, status, err)\<close>, which start as \<open>(nil, 0, nil)\<close>.
\<close>

definition Request :: "(string \<Rightarrow> iface option) \<Rightarrow> (request list \<Rightarrow> request \<Rightarrow> http_reply) \<Rightarrow> request list
    \<Rightarrow> string \<Rightarrow> http_method \<Rightarrow> (string \<times> string) list \<Rightarrow> string
    \<Rightarrow> (int \<times> int) list \<Rightarrow> (int \<times> int) list \<Rightarrow> (int \<times> int) list
    \<Rightarrow> (iface \<times> int \<times> err option) \<times> request list" where
  "Request Unmarshal srv tr url meth headers payload jsonStatuses errorStatuses okStatuses =
     (let req = \<lparr>r_method = meth, r_url = url, r_headers = headers, r_payload = payload\<rparr>;
          tr1 = tr @ [req] in
      case srv tr req of
        NewRequestError \<Rightarrow> ((INil, 0, Some NewRequestErr), tr1)
      | DoError \<Rightarrow> ((INil, 0, Some DoRequestErr), tr1)
      | ReadError \<Rightarrow> ((INil, 0, Some ReadBodyErr), tr1)
      | Response status body \<Rightarrow>
          (case (if status_hit jsonStatuses status then Unmarshal body else Some (IBytes body)) of
             None \<Rightarrow> ((INil, status, Some UnmarshalErr), tr1)
           | Some result \<Rightarrow>
               (let err1 = (if status_hit errorStatuses status then Some StatusErr else None);
                    err2 = (if okStatuses \<noteq> [] \<and> \<not> status_hit okStatuses status
                            then Some StatusNotSuccessErr else err1)
                in ((result, status, err2), tr1))))"

section \<open>Bulk writer (ds.go, SendToElastic)\<close>

definition BulkRefreshMode :: string where
  "BulkRefreshMode = ''true''"

text \<open>The lines that \<^verbatim>\<open>SendToElastic\<close> prints, with their arguments.\<close>

datatype logmsg =
    LogSaving string nat
  | LogSaved string nat
  | LogBulkFailed string nat
  | LogError err
  | LogSavedNonBulk string nat

text \<open>
  The first loop builds the bulk payload. \<open>Marshal\<close> is \<^verbatim>\<open>jsoniter.Marshal\<close>.
  \<^verbatim>\<open>item.(map[string]interface{})\<close> is a single-value type assertion: it panics on
  an item that is not a map. The result is a panic, an early return with an error, or the payload.
\<close>

fun bulk_payload :: "(iface \<Rightarrow> string option) \<Rightarrow> string \<Rightarrow> string \<Rightarrow> iface list \<Rightarrow> failure + (err + string)" where
  \<open>bulk_payload Marshal key payloads [] = Inr (Inr payloads)\<close>
| \<open>bulk_payload Marshal key payloads (item # items) =
     (case Marshal item of
        None \<Rightarrow> Inr (Inl MarshalErr)
      | Some doc \<Rightarrow>
          (case item of
             IMap m \<Rightarrow>
               (case map_of m key of
                  Some (IStr uuid) \<Rightarrow>
                    bulk_payload Marshal key
                      (payloads @ (''{"index":{"_id":"'' @ uuid @ ''"}}'' @ [CHR 0x0A]) @ doc @ [CHR 0x0A]) items
                | _ \<Rightarrow> Inr (Inl (MissingProperty key)))
           | _ \<Rightarrow> Inl (Panic ''interface conversion: item is not map[string]interface {}'')))\<close>

text \<open>
  The request of one document in the one-by-one mode: \<^verbatim>\<open>doc, _ = Marshal(item)\<close>
  and \<^verbatim>\<open>uuid, _ := item.(map[string]interface{})[key].(string)\<close> drop the error and
  the flag, so a failed marshal gives the empty payload and a missing key the empty string.
\<close>

definition doc_request :: "(iface \<Rightarrow> string option) \<Rightarrow> string \<Rightarrow> string \<Rightarrow> (string \<times> iface) list \<Rightarrow> iface \<Rightarrow> request" where
  "doc_request Marshal url key m item =
     \<lparr>r_method = Put,
      r_url = url @ (case map_of m key of Some (IStr uuid) \<Rightarrow> uuid | _ \<Rightarrow> []),
      r_headers = [(''Content-Type'', ''application/json'')],
      r_payload = (case Marshal item of Some doc \<Rightarrow> doc | None \<Rightarrow> [])\<rparr>"

text \<open>The second loop; \<open>e\<close> is the variable \<^verbatim>\<open>err\<close>, assigned by each request.\<close>

fun fallback_loop :: "(iface \<Rightarrow> string option) \<Rightarrow> (string \<Rightarrow> iface option) \<Rightarrow> (request list \<Rightarrow> request \<Rightarrow> http_reply)
    \<Rightarrow> string \<Rightarrow> string \<Rightarrow> iface list \<Rightarrow> err option \<Rightarrow> request list \<Rightarrow> failure + (err option \<times> request list)" where
  "fallback_loop Marshal Unmarshal srv url key [] e tr = Inr (e, tr)"
| "fallback_loop Marshal Unmarshal srv url key (item # items) e tr =
     (case item of
        IMap m \<Rightarrow>
          (let req = doc_request Marshal url key m item;
               ((result, status, e1), tr1) =
                  Request Unmarshal srv tr (r_url req) Put (r_headers req) (r_payload req)
                    [] [(400, 599)] [(200, 201)]
           in fallback_loop Marshal Unmarshal srv url key items e1 tr1)
      | _ \<Rightarrow> Inl (Panic ''interface conversion: item is not map[string]interface {}''))"

text \<open>
  \<^verbatim>\<open>SendToElastic\<close>. \<open>name\<close> is \<^verbatim>\<open>ds.Name()\<close>. The state is the list of
  requests made so far and the lines printed so far.
\<close>

definition SendToElastic :: "(iface \<Rightarrow> string option) \<Rightarrow> (string \<Rightarrow> iface option) \<Rightarrow> (request list \<Rightarrow> request \<Rightarrow> http_reply)
    \<Rightarrow> Ctx \<Rightarrow> string \<Rightarrow> bool \<Rightarrow> string \<Rightarrow> iface list \<Rightarrow> request list \<Rightarrow> logmsg list
    \<Rightarrow> (failure + err option) \<times> request list \<times> logmsg list" where
  "SendToElastic Marshal Unmarshal srv ctx name raw key items tr lg =
     (let lg1 = (if Debug ctx > 0 then lg @ [LogSaving name (length items)] else lg);
          url = ESURL ctx @ ''/'' @ (if raw then RawIndex ctx else RichIndex ctx) @ ''/_bulk?refresh='' @ BulkRefreshMode
      in case bulk_payload Marshal key [] items of
           Inl f \<Rightarrow> (Inl f, tr, lg1)
         | Inr (Inl e) \<Rightarrow> (Inr (Some e), tr, lg1)
         | Inr (Inr payloads) \<Rightarrow>
             (let ((result, status, e), tr1) =
                    Request Unmarshal srv tr url Post [(''Content-Type'', ''application/x-ndjson'')] payloads
                      [] [(400, 599)] []
              in case e of
                   None \<Rightarrow> (Inr None, tr1, (if Debug ctx > 0 then lg1 @ [LogSaved name (length items)] else lg1))
                 | Some bulk_err \<Rightarrow>
                     (let lg2 = lg1 @ [LogBulkFailed name (length items)];
                          lg3 = (if Debug ctx > 1 then lg2 @ [LogError bulk_err] else lg2);
                          url1 = ESURL ctx @ ''/'' @ (if raw then RawIndex ctx else RichIndex ctx) @ ''/_doc/''
                      in case fallback_loop Marshal Unmarshal srv url1 key items None tr1 of
                           Inl f \<Rightarrow> (Inl f, tr1, lg3)
                         | Inr (e2, tr2) \<Rightarrow>
                             (Inr e2, tr2,
                              (if Debug ctx > 0 then lg3 @ [LogSavedNonBulk name (length items)] else lg3)))))"

section \<open>Pagination engine (ds.go, ForEachRawItem)\<close>

text \<open>\<^verbatim>\<open>strings.Contains\<close>.\<close>

fun HasPrefix :: "string \<Rightarrow> string \<Rightarrow> bool" where
  "HasPrefix s [] = True"
| "HasPrefix [] (p # ps) = False"
| "HasPrefix (c # cs) (p # ps) = (c = p \<and> HasPrefix cs ps)"

fun Contains :: "string \<Rightarrow> string \<Rightarrow> bool" where
  "Contains [] substr = HasPrefix [] substr"
| "Contains (c # cs) substr = (HasPrefix (c # cs) substr \<or> Contains cs substr)"

text \<open>
  The state of the function while it pages: the variable \<^verbatim>\<open>scroll\<close>, the state
  \<open>fe_proc\<close> of the batch processing (the buffers \<^verbatim>\<open>docs\<close> and
  \<^verbatim>\<open>outDocs\<close>, and in the threaded mode the workers), \<^verbatim>\<open>total\<close>, and the
  requests made so far.
\<close>

record 'p fe_state =
  fe_scroll :: "string option"
  fe_proc :: 'p
  fe_total :: nat
  fe_trace :: "request list"

text \<open>How the body of the function ends: a \<^verbatim>\<open>return\<close> with the value of
  \<^verbatim>\<open>err\<close>, or a fatal stop or panic.\<close>

datatype fe_exit = Return "err option" | Stopped failure

datatype 'p fe_step = Continue "'p fe_state" | Break "'p fe_state" | Exit fe_exit "'p fe_state"

text \<open>
  One iteration of the \<^verbatim>\<open>for\<close> loop (ds.go lines 756-855).

  \<^item> \<open>search\<close> is the URL and payload of the scroll-opening search; the source concatenates
    them from the context and the data source's fields with \<^verbatim>\<open>JSONEscape\<close> and
    \<^verbatim>\<open>ToESDate\<close>, which are not in the files at hand.
  \<^item> \<open>TooManyScrolls\<close> is the constant of that name, not declared in the files at hand.
  \<^item> \<open>elapsed\<close> gives \<^verbatim>\<open>time.Now().Sub(attemptAt).Seconds()\<close> as a function of
    the number of requests made.
  \<^item> \<open>process\<close> is the block of lines 823-853: it hands the hits of the page to the
    callback \<^verbatim>\<open>uitems\<close> and dispatches the buffer when it holds \<open>packSize\<close> documents.
    It returns the exit it takes, if it takes one. The block makes no request itself.

  \<^verbatim>\<open>res.([]byte)\<close> and \<^verbatim>\<open>res.(map[string]interface{})\<close> are single-value type
  assertions: they panic when \<open>res\<close> holds a value of another type. The last assertion
  of each chain, \<^verbatim>\<open>.(string)\<close> and \<^verbatim>\<open>.([]interface{})\<close>, is the two-value form.
\<close>

definition ForEachRawItem_iter :: "(string \<Rightarrow> iface option) \<Rightarrow> (request list \<Rightarrow> request \<Rightarrow> http_reply)
    \<Rightarrow> Ctx \<Rightarrow> string \<times> string \<Rightarrow> string \<Rightarrow> (nat \<Rightarrow> real)
    \<Rightarrow> (iface list \<Rightarrow> 'p \<Rightarrow> fe_exit option \<times> 'p)
    \<Rightarrow> 'p fe_state \<Rightarrow> 'p fe_step" where
  \<open>ForEachRawItem_iter Unmarshal srv ctx search TooManyScrolls elapsed process st =
     (let headers = [(''Content-Type'', ''application/json'')];
          (url, payload) =
             (case fe_scroll st of
                None \<Rightarrow> search
              | Some sid \<Rightarrow>
                  (ESURL ctx @ ''/_search/scroll'',
                   ''{"scroll":"'' @ ESScrollWait ctx @ ''","scroll_id":"'' @ sid @ ''"}''));
          ((res, status, err), tr1) =
             Request Unmarshal srv (fe_trace st) url Post headers payload
               [(200, 200)] [] [(200, 200), (500, 500)];
          st1 = st\<lparr>fe_trace := tr1\<rparr>
      in case err of
           Some e \<Rightarrow> Exit (Stopped (Fatal ''FatalOnError'')) st1
         | None \<Rightarrow>
             (let after_retry_check =
                    (case res of
                       IMap m \<Rightarrow>
                         (case map_of m ''_scroll_id'' of
                            Some (IStr sScroll) \<Rightarrow>
                              (let st2 = st1\<lparr>fe_scroll := Some sScroll\<rparr> in
                               case map_of m ''hits'' of
                                 Some (IMap hm) \<Rightarrow>
                                   (case map_of hm ''hits'' of
                                      Some (IArr items) \<Rightarrow>
                                        (if length items = 0 then Break st2
                                         else
                                           (case process items (fe_proc st2) of
                                              (Some ex, p) \<Rightarrow> Exit ex (st2\<lparr>fe_proc := p\<rparr>)
                                            | (None, p) \<Rightarrow>
                                                Continue (st2\<lparr>fe_proc := p, fe_total := fe_total st2 + length items\<rparr>)))
                                    | _ \<Rightarrow> Exit (Return (Some MissingHits)) st2)
                               | _ \<Rightarrow> Exit (Stopped (Panic ''interface conversion: hits is not map[string]interface {}'')) st2)
                          | _ \<Rightarrow> Exit (Return (Some MissingScrollID)) st1)
                     | _ \<Rightarrow> Exit (Stopped (Panic ''interface conversion: res is not map[string]interface {}'')) st1)
              in
              if fe_scroll st = None \<and> status = 500 then
                (case res of
                   IBytes body \<Rightarrow>
                     (if Contains body TooManyScrolls then
                        (case res of
                           IMap m \<Rightarrow>
                             (if elapsed (length tr1) > ESScrollWaitSecs ctx
                              then Exit (Stopped (Fatal ''Tried to acquire scroll too many times'')) st1
                              else Continue st1)
                         | _ \<Rightarrow> Exit (Stopped (Panic ''interface conversion: res is not map[string]interface {}'')) st1)
                      else after_retry_check)
                 | _ \<Rightarrow> Exit (Stopped (Panic ''interface conversion: res is not []uint8'')) st1)
              else after_retry_check))\<close>

text \<open>
  The loop, with the block after it (lines 856-893) as \<open>finish\<close>: it dispatches what is
  left in the buffer and waits for the workers. The loop runs as long as the server keeps sending
  hits, so it takes fuel; \<open>None\<close> is a run that has not ended within the fuel.
\<close>

fun ForEachRawItem_loop :: "nat \<Rightarrow> ('p fe_state \<Rightarrow> 'p fe_step) \<Rightarrow> ('p \<Rightarrow> fe_exit \<times> 'p)
    \<Rightarrow> 'p fe_state \<Rightarrow> (fe_exit \<times> 'p fe_state) option" where
  "ForEachRawItem_loop 0 iter finish st = None"
| "ForEachRawItem_loop (Suc fuel) iter finish st =
     (case iter st of
        Continue st1 \<Rightarrow> ForEachRawItem_loop fuel iter finish st1
      | Break st1 \<Rightarrow> (case finish (fe_proc st1) of (ex, p) \<Rightarrow> Some (ex, st1\<lparr>fe_proc := p\<rparr>))
      | Exit ex st1 \<Rightarrow> Some (ex, st1))"

text \<open>The deferred function (lines 708-727): it returns the requests made, with the release
  of the scroll if one is open.\<close>

definition free_scroll :: "(string \<Rightarrow> iface option) \<Rightarrow> (request list \<Rightarrow> request \<Rightarrow> http_reply) \<Rightarrow> Ctx
    \<Rightarrow> 'p fe_state \<Rightarrow> request list" where
  \<open>free_scroll Unmarshal srv ctx st =
     (case fe_scroll st of
        None \<Rightarrow> fe_trace st
      | Some sid \<Rightarrow>
          snd (Request Unmarshal srv (fe_trace st) (ESURL ctx @ ''/_search/scroll'') Delete
                 [(''Content-Type'', ''application/json'')] (''{"scroll_id":"'' @ sid @ ''"}'')
                 [] [] [(200, 200)]))\<close>

text \<open>
  Deferred calls run when the function returns and when it panics. \<^verbatim>\<open>Fatalf\<close> and
  \<^verbatim>\<open>FatalOnError\<close> are not in the files at hand: \<open>fatal_unwinds\<close> says whether
  a fatal stop unwinds the stack as a panic does (then the deferred call runs) or ends the
  process on the spot.
\<close>

fun runs_deferred :: "bool \<Rightarrow> fe_exit \<Rightarrow> bool" where
  "runs_deferred fatal_unwinds (Return e) = True"
| "runs_deferred fatal_unwinds (Stopped (Panic s)) = True"
| "runs_deferred fatal_unwinds (Stopped (Fatal s)) = fatal_unwinds"

text \<open>The body of \<^verbatim>\<open>ForEachRawItem\<close>, from the initial state, without the deferred call.\<close>

definition ForEachRawItem_body :: "nat \<Rightarrow> (string \<Rightarrow> iface option) \<Rightarrow> (request list \<Rightarrow> request \<Rightarrow> http_reply)
    \<Rightarrow> Ctx \<Rightarrow> string \<times> string \<Rightarrow> string \<Rightarrow> (nat \<Rightarrow> real)
    \<Rightarrow> (iface list \<Rightarrow> 'p \<Rightarrow> fe_exit option \<times> 'p) \<Rightarrow> ('p \<Rightarrow> fe_exit \<times> 'p)
    \<Rightarrow> 'p \<Rightarrow> request list \<Rightarrow> (fe_exit \<times> 'p fe_state) option" where
  "ForEachRawItem_body fuel Unmarshal srv ctx search TooManyScrolls elapsed process finish p0 tr0 =
     ForEachRawItem_loop fuel
       (ForEachRawItem_iter Unmarshal srv ctx search TooManyScrolls elapsed process) finish
       \<lparr>fe_scroll = None, fe_proc = p0, fe_total = 0, fe_trace = tr0\<rparr>"

text \<open>\<^verbatim>\<open>ForEachRawItem\<close>: the exit, the processing state and all requests made.\<close>

definition ForEachRawItem :: "nat \<Rightarrow> bool \<Rightarrow> (string \<Rightarrow> iface option) \<Rightarrow> (request list \<Rightarrow> request \<Rightarrow> http_reply)
    \<Rightarrow> Ctx \<Rightarrow> string \<times> string \<Rightarrow> string \<Rightarrow> (nat \<Rightarrow> real)
    \<Rightarrow> (iface list \<Rightarrow> 'p \<Rightarrow> fe_exit option \<times> 'p) \<Rightarrow> ('p \<Rightarrow> fe_exit \<times> 'p)
    \<Rightarrow> 'p \<Rightarrow> request list \<Rightarrow> (fe_exit \<times> 'p \<times> request list) option" where
  "ForEachRawItem fuel fatal_unwinds Unmarshal srv ctx search TooManyScrolls elapsed process finish p0 tr0 =
     (case ForEachRawItem_body fuel Unmarshal srv ctx search TooManyScrolls elapsed process finish p0 tr0 of
        None \<Rightarrow> None
      | Some (ex, st) \<Rightarrow>
          Some (ex, fe_proc st,
                (if runs_deferred fatal_unwinds ex then free_scroll Unmarshal srv ctx st else fe_trace st)))"

text \<open>
  The two blocks in the synchronous mode (\<^verbatim>\<open>thrN\<close> at most 1), where
  \<^verbatim>\<open>funct(nil)\<close> calls the callback \<^verbatim>\<open>ufunct\<close> on the two buffers at once. The
  callbacks take the buffers and return them with their error.
\<close>

definition process_sync :: "(iface list \<Rightarrow> iface list \<Rightarrow> err option \<times> iface list)
    \<Rightarrow> (iface list \<Rightarrow> iface list \<Rightarrow> err option \<times> iface list \<times> iface list) \<Rightarrow> int
    \<Rightarrow> iface list \<Rightarrow> iface list \<times> iface list \<Rightarrow> fe_exit option \<times> iface list \<times> iface list" where
  "process_sync uitems ufunct packSize items p =
     (case p of (docs, outDocs) \<Rightarrow>
        (case uitems items docs of
           (Some e, docs1) \<Rightarrow> (Some (Return (Some e)), docs1, outDocs)
         | (None, docs1) \<Rightarrow>
             (if int (length docs1) \<ge> packSize then
                (case ufunct docs1 outDocs of
                   (Some e, docs2, outDocs2) \<Rightarrow> (Some (Return (Some e)), docs2, outDocs2)
                 | (None, docs2, outDocs2) \<Rightarrow> (None, docs2, outDocs2))
              else (None, docs1, outDocs))))"

definition finish_sync :: "(iface list \<Rightarrow> iface list \<Rightarrow> err option \<times> iface list \<times> iface list)
    \<Rightarrow> iface list \<times> iface list \<Rightarrow> fe_exit \<times> iface list \<times> iface list" where
  "finish_sync ufunct p =
     (case p of (docs, outDocs) \<Rightarrow>
        (if length docs > 0 then
           (case ufunct docs outDocs of (e, docs2, outDocs2) \<Rightarrow> (Return e, docs2, outDocs2))
         else (Return None, docs, outDocs)))"

section \<open>Identity resolver (EmptyAffsItem, IdenityAffsData, AffsItems)\<close>

























section \<open>Example values\<close>

text \<open>A context as a run starts with: no start date, no start offset, nothing detected.\<close>

definition example_ctx :: Ctx where
  "example_ctx =
     \<lparr>DateFrom = None, DateTo = None, OffsetFrom = -1, OffsetTo = -1,
      DateFromDetected = False, OffsetFromDetected = False,
      ESURL = ''http://es'', RawIndex = ''raw'', RichIndex = ''rich'', Debug = 0,
      ESScrollWait = ''10m'', ESScrollWaitSecs = 600\<rparr>"

section \<open>Case variants of identifier arguments\<close>

text \<open>
  Two strings are the same up to the case of their ASCII letters when lowering both gives the
  same bytes. A tuple is a case variant of another when they agree in this sense argument by
  argument and hold the null sentinel \<^verbatim>\<open>"<nil>"\<close>, spelled exactly so, at the same
  places. The normaliser respects case when it maps strings that are the same up to case to
  such strings; NFKD does, since it decomposes each character on its own and leaves ASCII
  characters alone.
\<close>

definition same_modulo_case :: "string \<Rightarrow> string \<Rightarrow> bool" where
  "same_modulo_case a b = (ToLower a = ToLower b)"

definition case_variant_args :: "string list \<Rightarrow> string list \<Rightarrow> bool" where
  "case_variant_args args1 args2 =
     list_all2 (\<lambda>a b. same_modulo_case a b \<and> (a = Nil_s) = (b = Nil_s)) args1 args2"

definition nfkd_respects_case :: "(string \<Rightarrow> string) \<Rightarrow> bool" where
  "nfkd_respects_case nfkd = (\<forall>a b. same_modulo_case a b \<longrightarrow> same_modulo_case (nfkd a) (nfkd b))"

section \<open>Notions used to state the properties of the transport layer and the bulk writer\<close>

text \<open>A status falls in one of the ranges of a set.\<close>

definition in_some_range :: "(int \<times> int) list \<Rightarrow> int \<Rightarrow> bool" where
  "in_some_range ranges status = (\<exists>r \<in> set ranges. fst r \<le> status \<and> status \<le> snd r)"

text \<open>The error that a call of \<^verbatim>\<open>Request\<close> returns.\<close>

definition Request_err :: "(iface \<times> int \<times> err option) \<times> request list \<Rightarrow> err option" where
  "Request_err r = snd (snd (fst r))"

text \<open>The bulk request of a batch with the payload \<open>payloads\<close>.\<close>

definition bulk_request :: "Ctx \<Rightarrow> bool \<Rightarrow> string \<Rightarrow> request" where
  "bulk_request ctx raw payloads =
     \<lparr>r_method = Post,
      r_url = ESURL ctx @ ''/'' @ (if raw then RawIndex ctx else RichIndex ctx) @ ''/_bulk?refresh='' @ BulkRefreshMode,
      r_headers = [(''Content-Type'', ''application/x-ndjson'')],
      r_payload = payloads\<rparr>"

text \<open>
  The request for one document of a batch in the one-by-one mode: a PUT of the marshalled
  document to the document URL of the index, followed by the document's identifier.
\<close>

definition upsert_request :: "(iface \<Rightarrow> string option) \<Rightarrow> Ctx \<Rightarrow> bool \<Rightarrow> string \<Rightarrow> iface \<Rightarrow> request" where
  "upsert_request Marshal ctx raw key item =
     doc_request Marshal (ESURL ctx @ ''/'' @ (if raw then RawIndex ctx else RichIndex ctx) @ ''/_doc/'') key
       (case item of IMap m \<Rightarrow> m | _ \<Rightarrow> []) item"

text \<open>The error of the request for one document, made after the requests \<open>tr\<close>.\<close>

definition upsert_err :: "(string \<Rightarrow> iface option) \<Rightarrow> (request list \<Rightarrow> request \<Rightarrow> http_reply) \<Rightarrow> request list
    \<Rightarrow> request \<Rightarrow> err option" where
  "upsert_err Unmarshal srv tr req =
     Request_err (Request Unmarshal srv tr (r_url req) Put (r_headers req) (r_payload req)
                    [] [(400, 599)] [(200, 201)])"

text \<open>
  An example: two documents with the identifiers 1 and 2, a marshaller that writes a document
  as its identifier, and a server that answers every POST with 500, the PUT of document 2
  with 201 and every other request with 400.
\<close>

definition example_doc1 :: iface where
  "example_doc1 = IMap [(''uuid'', IStr ''1'')]"

definition example_doc2 :: iface where
  "example_doc2 = IMap [(''uuid'', IStr ''2'')]"

definition example_Marshal :: "iface \<Rightarrow> string option" where
  "example_Marshal item = (case item of IMap [(k, IStr v)] \<Rightarrow> Some v | _ \<Rightarrow> None)"

definition example_Unmarshal :: "string \<Rightarrow> iface option" where
  "example_Unmarshal body = (if body = ''{}'' then Some (IMap []) else None)"

definition example_srv :: "request list \<Rightarrow> request \<Rightarrow> http_reply" where
  "example_srv tr req =
     (if r_method req = Post then Response 500 ''bulk rejected''
      else if r_method req = Put \<and> r_url req = ''http://es/rich/_doc/2'' then Response 201 []
      else Response 400 [])"

text \<open>The bulk payload of the two example documents.\<close>

definition example_payloads :: string where
  \<open>example_payloads =
     ''{"index":{"_id":"1"}}'' @ [CHR 0x0A] @ ''1'' @ [CHR 0x0A]
     @ ''{"index":{"_id":"2"}}'' @ [CHR 0x0A] @ ''2'' @ [CHR 0x0A]\<close>

section \<open>Notions used to state the properties of the pagination engine\<close>

text \<open>The request of one page: the scroll-opening search while no scroll is open, the
  continuation of the open scroll otherwise.\<close>

definition page_request :: "Ctx \<Rightarrow> string \<times> string \<Rightarrow> string option \<Rightarrow> request" where
  \<open>page_request ctx search scroll =
     (case scroll of
        None \<Rightarrow>
          \<lparr>r_method = Post, r_url = fst search,
           r_headers = [(''Content-Type'', ''application/json'')], r_payload = snd search\<rparr>
      | Some sid \<Rightarrow>
          \<lparr>r_method = Post, r_url = ESURL ctx @ ''/_search/scroll'',
           r_headers = [(''Content-Type'', ''application/json'')],
           r_payload = ''{"scroll":"'' @ ESScrollWait ctx @ ''","scroll_id":"'' @ sid @ ''"}''\<rparr>)\<close>

text \<open>The request that releases the scroll \<open>sid\<close>.\<close>

definition release_request :: "Ctx \<Rightarrow> string \<Rightarrow> request" where
  \<open>release_request ctx sid =
     \<lparr>r_method = Delete, r_url = ESURL ctx @ ''/_search/scroll'',
      r_headers = [(''Content-Type'', ''application/json'')],
      r_payload = ''{"scroll_id":"'' @ sid @ ''"}''\<rparr>\<close>

text \<open>The state that an iteration leaves.\<close>

fun step_state :: "'p fe_step \<Rightarrow> 'p fe_state" where
  "step_state (Continue st) = st"
| "step_state (Break st) = st"
| "step_state (Exit ex st) = st"

text \<open>
  Examples: the search of a run, the marker of an exhausted scroll quota, a server that
  answers the scroll-opening search with status 500 and that marker, and a server that answers
  it with a page without hits and the scroll \<open>s1\<close>, with the decoder for its body.
\<close>

definition example_search :: "string \<times> string" where
  \<open>example_search =
     (''http://es/raw/_search?scroll=10m&size=1000'', ''{"sort":{"metadata__updated_on":{"order":"asc"}}}'')\<close>

definition example_TooManyScrolls :: string where
  "example_TooManyScrolls = ''Trying to create too many scroll contexts''"

definition example_busy_srv :: "request list \<Rightarrow> request \<Rightarrow> http_reply" where
  "example_busy_srv tr req =
     Response 500 ''search_context_exception: Trying to create too many scroll contexts. Must be less than 500''"

definition example_empty_srv :: "request list \<Rightarrow> request \<Rightarrow> http_reply" where
  "example_empty_srv tr req =
     (if r_method req = Post then Response 200 ''page'' else Response 200 ''released'')"

definition example_page_Unmarshal :: "string \<Rightarrow> iface option" where
  "example_page_Unmarshal body =
     (if body = ''page''
      then Some (IMap [(''_scroll_id'', IStr ''s1''), (''hits'', IMap [(''hits'', IArr [])])])
      else None)"

text \<open>Example callbacks: the hits are buffered as they are, and a dispatch moves the buffer to
  the output.\<close>

definition example_uitems :: "iface list \<Rightarrow> iface list \<Rightarrow> err option \<times> iface list" where
  "example_uitems items docs = (None, docs @ items)"

definition example_ufunct :: "iface list \<Rightarrow> iface list \<Rightarrow> err option \<times> iface list \<times> iface list" where
  "example_ufunct docs outDocs = (None, [], outDocs @ docs)"

section \<open>Notions used to state the properties of the identity resolver\<close>










section \<open>Checkpoint resolution: the enrichment start is not after the raw start\<close>

lemma FetchRaw_checkpoint_flags:
  assumes "\<not> DateFromDetected ctx0" "\<not> OffsetFromDetected ctx0"
      and "FetchRaw_checkpoint ds rawLastUpdate rawLastOffset ctx0 = Inr ctx1"
  shows "(DateFromDetected ctx1 \<longrightarrow> DateFrom ctx0 = None \<and> SupportDateFrom ds \<and> DateFrom ctx1 \<noteq> None)
       \<and> (OffsetFromDetected ctx1 \<longrightarrow> OffsetFrom ctx0 < 0 \<and> SupportOffsetFrom ds \<and> OffsetFrom ctx1 \<ge> 0)
       \<and> (\<forall>d. DateFrom ctx0 = Some d \<longrightarrow> DateFrom ctx1 = Some d \<and> \<not> DateFromDetected ctx1)
       \<and> (OffsetFrom ctx0 \<ge> 0 \<longrightarrow> OffsetFrom ctx1 = OffsetFrom ctx0 \<and> \<not> OffsetFromDetected ctx1)"
  using assms
  by (auto simp: FetchRaw_checkpoint_def FetchRaw_date_def FetchRaw_offset_def Let_def
      split: if_splits option.splits prod.splits)

text \<open>
  Claim C1. Take a run that starts with both detection flags unset and whose raw pass
  (\<open>FetchRaw_checkpoint\<close>) gets through to \<open>ctx1\<close>. Then the checkpoint part of the
  enrichment pass returns a context \<open>ctx2\<close>, and:
  \<^item> if the raw pass detected its start date \<open>D1\<close>, a start date of the enrichment pass is
    never after \<open>D1\<close>, and it is \<open>D1\<close> when the rich index gives a later date \<open>D2\<close>;
  \<^item> if the raw pass detected its start offset \<open>O1\<close>, the start offset of the enrichment pass
    is at most \<open>O1\<close>, and it is \<open>O1\<close> when the rich index gives a greater offset;
  \<^item> a start date or a start offset that the operator supplied is the start of the enrichment
    pass, unchanged.
\<close>

theorem enrich_start_not_after_raw_start:
  assumes fresh: "\<not> DateFromDetected ctx0" "\<not> OffsetFromDetected ctx0"
      and raw: "FetchRaw_checkpoint ds rawLastUpdate rawLastOffset ctx0 = Inr ctx1"
  shows "\<exists>ctx2. Enrich_checkpoint ds richLastUpdate richLastOffset ctx1 = Inr ctx2
      \<and> (DateFromDetected ctx1 \<longrightarrow>
            (\<exists>D1. DateFrom ctx1 = Some D1
                 \<and> (\<forall>d. DateFrom ctx2 = Some d \<longrightarrow> d \<le> D1)
                 \<and> (\<forall>D2. richLastUpdate = Some D2 \<and> D1 < D2 \<longrightarrow> DateFrom ctx2 = Some D1)))
      \<and> (OffsetFromDetected ctx1 \<longrightarrow>
            OffsetFrom ctx2 \<le> OffsetFrom ctx1
          \<and> (OffsetFrom ctx1 < richLastOffset \<longrightarrow> OffsetFrom ctx2 = OffsetFrom ctx1))
      \<and> (\<forall>d. DateFrom ctx0 = Some d \<longrightarrow> DateFrom ctx2 = Some d)
      \<and> (OffsetFrom ctx0 \<ge> 0 \<longrightarrow> OffsetFrom ctx2 = OffsetFrom ctx0)"
  using FetchRaw_checkpoint_flags[OF fresh raw]
  by (auto simp: Enrich_checkpoint_def Enrich_date_def Enrich_offset_def Let_def
      split: if_splits option.splits sum.splits)

text \<open>
  The theorem at a run with no operator-supplied start, a date-based data source, last raw
  date 100 and last rich date 200: the raw pass detects 100 and the enrichment pass starts
  at 100.
\<close>

theorem enrich_start_not_after_raw_start_witness:
  "\<not> DateFromDetected example_ctx \<and> \<not> OffsetFromDetected example_ctx
   \<and> FetchRaw_checkpoint \<lparr>SupportDateFrom = True, SupportOffsetFrom = False\<rparr> (Some 100) (-1) example_ctx
       = Inr (example_ctx\<lparr>DateFrom := Some 100, DateFromDetected := True\<rparr>)
   \<and> (\<exists>ctx2. Enrich_checkpoint \<lparr>SupportDateFrom = True, SupportOffsetFrom = False\<rparr> (Some 200) (-1)
                (example_ctx\<lparr>DateFrom := Some 100, DateFromDetected := True\<rparr>) = Inr ctx2
            \<and> DateFrom ctx2 = Some 100)"
proof -
  have fresh: "\<not> DateFromDetected example_ctx" "\<not> OffsetFromDetected example_ctx"
    by (simp_all add: example_ctx_def)
  have raw: "FetchRaw_checkpoint \<lparr>SupportDateFrom = True, SupportOffsetFrom = False\<rparr> (Some 100) (-1) example_ctx
       = Inr (example_ctx\<lparr>DateFrom := Some 100, DateFromDetected := True\<rparr>)"
    by (simp add: example_ctx_def FetchRaw_checkpoint_def FetchRaw_date_def FetchRaw_offset_def Let_def)
  from enrich_start_not_after_raw_start[OF fresh raw, of "Some 200" "-1"]
  obtain ctx2 where
    "Enrich_checkpoint \<lparr>SupportDateFrom = True, SupportOffsetFrom = False\<rparr> (Some 200) (-1)
        (example_ctx\<lparr>DateFrom := Some 100, DateFromDetected := True\<rparr>) = Inr ctx2"
    "DateFrom ctx2 = Some 100"
    by auto
  with fresh raw show ?thesis by blast
qed

section \<open>Identifier generator: the caches\<close>

lemma UUIDNonEmpty_result_cached:
  "UUIDNonEmpty nfkd sha1hex c args = (Inr h, c1) \<Longrightarrow> c1 (Join args '':'') = Some h"
  by (auto simp: UUIDNonEmpty_def Let_def split: option.splits sum.splits)

lemma UUIDNonEmpty_hit:
  "c (Join args '':'') = Some h \<Longrightarrow> UUIDNonEmpty nfkd sha1hex c args = (Inr h, c)"
  by (simp add: UUIDNonEmpty_def)

lemma UUIDNonEmpty_miss:
  "c (Join args '':'') = None \<Longrightarrow>
   fst (UUIDNonEmpty nfkd sha1hex c args) = UUIDNonEmpty_nocache nfkd sha1hex args"
  by (simp add: UUIDNonEmpty_def UUIDNonEmpty_nocache_def Let_def split: sum.splits)

lemma UUIDAffs_result_cached:
  "UUIDAffs nfkd sha1hex c args = (Inr h, c1) \<Longrightarrow> c1 (Join args '':'') = Some h"
  by (auto simp: UUIDAffs_def Let_def split: option.splits sum.splits)

lemma UUIDAffs_hit:
  "c (Join args '':'') = Some h \<Longrightarrow> UUIDAffs nfkd sha1hex c args = (Inr h, c)"
  by (simp add: UUIDAffs_def)

lemma UUIDAffs_miss:
  "c (Join args '':'') = None \<Longrightarrow>
   fst (UUIDAffs nfkd sha1hex c args) = UUIDAffs_nocache nfkd sha1hex args"
  by (simp add: UUIDAffs_def UUIDAffs_nocache_def Let_def split: sum.splits)

lemma UUIDAffs_keeps_entries:
  "UUIDAffs nfkd sha1hex c args = (r, c1) \<Longrightarrow> c k = Some h \<Longrightarrow> c1 k = Some h"
  by (auto simp: UUIDAffs_def Let_def split: option.splits sum.splits)

lemma UUIDAffs_calls_keeps_entries:
  "UUIDAffs_calls nfkd sha1hex c calls = Some c2 \<Longrightarrow> c k = Some h \<Longrightarrow> c2 k = Some h"
proof (induction calls arbitrary: c)
  case Nil
  then show ?case by simp
next
  case (Cons args calls)
  obtain r c1 where call: "UUIDAffs nfkd sha1hex c args = (r, c1)"
    by (cases "UUIDAffs nfkd sha1hex c args")
  with Cons.prems(1) have rest: "UUIDAffs_calls nfkd sha1hex c1 calls = Some c2"
    by (cases r) simp_all
  from UUIDAffs_keeps_entries[OF call Cons.prems(2)] have "c1 k = Some h" .
  with Cons.IH[OF rest] show ?case .
qed

lemma UUIDAffs_loop_no_failure_after_first:
  "0 < i \<Longrightarrow> \<exists>s. UUIDAffs_loop nfkd i arg args = Inr s"
  by (induction args arbitrary: i arg) (simp_all add: Let_def)

lemma UUIDAffs_nocache_returns:
  assumes "a \<noteq> []"
  shows "\<exists>h. UUIDAffs_nocache nfkd sha1hex (a # rest) = Inr h"
proof -
  from UUIDAffs_loop_no_failure_after_first[of "Suc 0"]
  obtain s where "UUIDAffs_loop nfkd (Suc 0)
      ((if [] \<noteq> [] then [] @ '':'' else []) @ stripF nfkd (if a = Nil_s then None_s else a)) rest = Inr s"
    by blast
  with assms show ?thesis
    by (simp add: UUIDAffs_nocache_def Let_def)
qed

lemma UUIDAffs_returns:
  assumes "a \<noteq> []"
  shows "\<exists>h c1. UUIDAffs nfkd sha1hex c (a # rest) = (Inr h, c1)"
proof (cases "c (Join (a # rest) '':'')")
  case None
  from UUIDAffs_nocache_returns[OF assms] obtain h where
    "UUIDAffs_nocache nfkd sha1hex (a # rest) = Inr h" by blast
  with UUIDAffs_miss[of c "a # rest" nfkd sha1hex] None
  have "fst (UUIDAffs nfkd sha1hex c (a # rest)) = Inr h"
    by simp
  then show ?thesis by (cases "UUIDAffs nfkd sha1hex c (a # rest)") auto
next
  case (Some h)
  from UUIDAffs_hit[of c "a # rest" h nfkd sha1hex] Some show ?thesis by blast
qed

section \<open>Identifier generator: case variants\<close>

lemma of_char_lowered:
  "65 \<le> (of_char c :: nat) \<Longrightarrow> (of_char c :: nat) \<le> 90 \<Longrightarrow>
   (of_char (char_of ((of_char c :: nat) + 32)) :: nat) = of_char c + 32"
  by (simp add: of_char_of)

lemma isOk_ToLower_byte: "isOk (ToLower_byte c) = isOk c"
  unfolding isOk_def ToLower_byte_def
  using of_char_lowered[of c]
  by (cases "65 \<le> (of_char c :: nat) \<and> (of_char c :: nat) \<le> 90") simp_all

lemma ToLower_filter_isOk:
  "ToLower (filter (\<lambda>r. \<not> isOk r) s) = filter (\<lambda>r. \<not> isOk r) (ToLower s)"
proof (induction s)
  case Nil
  show ?case by (simp add: ToLower_def)
next
  case (Cons c s)
  then show ?case
    using isOk_ToLower_byte[of c] by (simp add: ToLower_def)
qed

lemma ToLower_append: "ToLower (a @ b) = ToLower a @ ToLower b"
  by (simp add: ToLower_def)

lemma ToLower_empty: "ToLower a = ToLower b \<Longrightarrow> (a = []) = (b = [])"
proof -
  assume "ToLower a = ToLower b"
  then have "length (map ToLower_byte a) = length (map ToLower_byte b)"
    by (simp add: ToLower_def)
  then show ?thesis by auto
qed

lemma stripF_case:
  assumes "nfkd_respects_case nfkd" "same_modulo_case a b"
  shows "ToLower (stripF nfkd a) = ToLower (stripF nfkd b)"
proof -
  from assms(1) have "same_modulo_case a b \<longrightarrow> same_modulo_case (nfkd a) (nfkd b)"
    unfolding nfkd_respects_case_def by blast
  with assms(2) have "ToLower (nfkd a) = ToLower (nfkd b)"
    unfolding same_modulo_case_def by blast
  then show ?thesis
    unfolding stripF_def ToLower_filter_isOk by (rule arg_cong)
qed

lemma UUIDAffs_loop_case:
  assumes "nfkd_respects_case nfkd"
      and "list_all2 (\<lambda>a b. same_modulo_case a b \<and> (a = Nil_s) = (b = Nil_s)) args1 args2"
      and "ToLower arg1 = ToLower arg2"
  shows "rel_sum (=) (\<lambda>s1 s2. ToLower s1 = ToLower s2)
           (UUIDAffs_loop nfkd i arg1 args1) (UUIDAffs_loop nfkd i arg2 args2)"
  using assms(2,3)
proof (induction args1 args2 arbitrary: i arg1 arg2 rule: list_all2_induct)
  case Nil
  then show ?case by simp
next
  case (Cons a args1 b args2)
  define a1 where "a1 = (if a = Nil_s then None_s else a)"
  define b1 where "b1 = (if b = Nil_s then None_s else b)"
  from Cons.hyps(1) have ab: "same_modulo_case a b" and nil: "(a = Nil_s) = (b = Nil_s)"
    by blast+
  from ab have empty: "(a = []) = (b = [])"
    unfolding same_modulo_case_def by (rule ToLower_empty)
  have sub: "same_modulo_case a1 b1"
  proof (cases "a = Nil_s")
    case True
    with nil show ?thesis by (simp add: a1_def b1_def same_modulo_case_def)
  next
    case False
    with nil ab show ?thesis by (simp add: a1_def b1_def)
  qed
  have strip: "ToLower (stripF nfkd a1) = ToLower (stripF nfkd b1)"
    by (rule stripF_case[OF assms(1) sub])
  have args_empty: "(arg1 = []) = (arg2 = [])"
    by (rule ToLower_empty[OF Cons.prems])
  have acc: "ToLower ((if arg1 \<noteq> [] then arg1 @ '':'' else arg1) @ stripF nfkd a1)
           = ToLower ((if arg2 \<noteq> [] then arg2 @ '':'' else arg2) @ stripF nfkd b1)"
  proof (cases "arg1 = []")
    case True
    with args_empty have "arg2 = []" by blast
    with True strip show ?thesis by simp
  next
    case False
    with args_empty have "arg2 \<noteq> []" by blast
    have "ToLower (arg1 @ '':'' @ stripF nfkd a1) = ToLower (arg2 @ '':'' @ stripF nfkd b1)"
      by (simp only: ToLower_append Cons.prems strip)
    with False \<open>arg2 \<noteq> []\<close> show ?thesis by simp
  qed
  have step1: "UUIDAffs_loop nfkd i arg1 (a # args1) =
      (if i = 0 \<and> a = [] then Inl (Fatal ''UUIDAffs - empty first argument not allowed'')
       else UUIDAffs_loop nfkd (Suc i) ((if arg1 \<noteq> [] then arg1 @ '':'' else arg1) @ stripF nfkd a1) args1)"
    by (simp add: Let_def a1_def)
  have step2: "UUIDAffs_loop nfkd i arg2 (b # args2) =
      (if i = 0 \<and> b = [] then Inl (Fatal ''UUIDAffs - empty first argument not allowed'')
       else UUIDAffs_loop nfkd (Suc i) ((if arg2 \<noteq> [] then arg2 @ '':'' else arg2) @ stripF nfkd b1) args2)"
    by (simp add: Let_def b1_def)
  show ?case
  proof (cases "i = 0 \<and> a = []")
    case True
    with empty show ?thesis unfolding step1 step2 by simp
  next
    case False
    with empty have "\<not> (i = 0 \<and> b = [])" by blast
    with False Cons.IH[OF acc, of "Suc i"] show ?thesis
      unfolding step1 step2 by (simp only: if_False)
  qed
qed

lemma UUIDAffs_nocache_case:
  assumes "nfkd_respects_case nfkd" "case_variant_args args1 args2"
  shows "UUIDAffs_nocache nfkd sha1hex args1 = UUIDAffs_nocache nfkd sha1hex args2"
proof -
  from UUIDAffs_loop_case[OF assms(1) assms(2)[unfolded case_variant_args_def], of "[]" "[]" 0]
  have "rel_sum (=) (\<lambda>s1 s2. ToLower s1 = ToLower s2)
          (UUIDAffs_loop nfkd 0 [] args1) (UUIDAffs_loop nfkd 0 [] args2)"
    by simp
  then show ?thesis
    by (cases "UUIDAffs_loop nfkd 0 [] args1"; cases "UUIDAffs_loop nfkd 0 [] args2")
       (simp_all add: UUIDAffs_nocache_def)
qed

section \<open>The tolerant identifier: repeated calls and case\<close>

lemmas identifier_eval =
  UUIDAffs_def UUIDAffs_nocache_def UUIDNonEmpty_def UUIDNonEmpty_nocache_def
  Let_def stripF_def isOk_def ToLower_def ToLower_byte_def Nil_s_def None_s_def
  char_of_def bit_Suc_0_iff

lemma UUIDAffs_case_variant_after_miss:
  assumes resp: "nfkd_respects_case nfkd"
      and var: "case_variant_args args1 args2"
      and miss1: "c (Join args1 '':'') = None"
      and miss2: "c (Join args2 '':'') = None"
      and call: "UUIDAffs nfkd sha1hex c args1 = (Inr h, c1)"
  shows "fst (UUIDAffs nfkd sha1hex c args2) = Inr h \<and> fst (UUIDAffs nfkd sha1hex c1 args2) = Inr h"
proof -
  have same: "UUIDAffs_nocache nfkd sha1hex args1 = UUIDAffs_nocache nfkd sha1hex args2"
    by (rule UUIDAffs_nocache_case[OF resp var])
  from UUIDAffs_miss[of c args1 nfkd sha1hex] miss1 call
  have h: "UUIDAffs_nocache nfkd sha1hex args1 = Inr h" by simp
  with same UUIDAffs_miss[of c args2 nfkd sha1hex] miss2
  have first: "fst (UUIDAffs nfkd sha1hex c args2) = Inr h" by simp
  have stored: "c1 (Join args1 '':'') = Some h"
    by (rule UUIDAffs_result_cached[OF call])
  have second: "fst (UUIDAffs nfkd sha1hex c1 args2) = Inr h"
  proof (cases "c1 (Join args2 '':'')")
    case None
    with UUIDAffs_miss[of c1 args2 nfkd sha1hex] same h show ?thesis by simp
  next
    case (Some h2)
    from call miss1 have c1: "c1 = c(Join args1 '':'' \<mapsto> h)"
      by (auto simp: UUIDAffs_def Let_def split: sum.splits)
    with Some miss2 have "Join args2 '':'' = Join args1 '':''"
      by (auto split: if_splits)
    with stored UUIDAffs_hit[of c1 args2 h nfkd sha1hex] show ?thesis by simp
  qed
  from first second show ?thesis ..
qed

lemma UUIDAffs_step:
  assumes "UUIDAffs nfkd sha1hex c args = (Inr h, c1)"
  shows "(c (Join args '':'') = Some h \<and> c1 = c)
       \<or> (c (Join args '':'') = None \<and> UUIDAffs_nocache nfkd sha1hex args = Inr h
           \<and> c1 = c(Join args '':'' \<mapsto> h))"
  using assms
  by (auto simp: UUIDAffs_def UUIDAffs_nocache_def Let_def split: option.splits sum.splits)

lemma UUIDAffs_calls_variant_key:
  assumes resp: "nfkd_respects_case nfkd"
      and h: "UUIDAffs_nocache nfkd sha1hex args1 = Inr h"
      and calls: "UUIDAffs_calls nfkd sha1hex c calls = Some c2"
      and only: "\<forall>args3 \<in> set calls. Join args3 '':'' = k \<longrightarrow> case_variant_args args1 args3"
      and start: "c k = None \<or> c k = Some h"
  shows "c2 k = None \<or> c2 k = Some h"
  using calls only start
proof (induction calls arbitrary: c)
  case Nil
  then show ?case by simp
next
  case (Cons args3 calls)
  obtain r cx where call: "UUIDAffs nfkd sha1hex c args3 = (r, cx)"
    by (cases "UUIDAffs nfkd sha1hex c args3")
  show ?case
  proof (cases r)
    case (Inl f)
    with call Cons.prems(1) show ?thesis by simp
  next
    case (Inr h3)
    with call Cons.prems(1) have rest: "UUIDAffs_calls nfkd sha1hex cx calls = Some c2" by simp
    from Cons.prems(2)
    have only_rest: "\<forall>args3 \<in> set calls. Join args3 '':'' = k \<longrightarrow> case_variant_args args1 args3"
      by simp
    have inv: "cx k = None \<or> cx k = Some h"
    proof (cases "Join args3 '':'' = k")
      case False
      from UUIDAffs_step[OF call[unfolded Inr]] False have "cx k = c k" by auto
      with Cons.prems(3) show ?thesis by simp
    next
      case True
      with Cons.prems(2) have "case_variant_args args1 args3" by simp
      from UUIDAffs_nocache_case[OF resp this] h
      have h3: "UUIDAffs_nocache nfkd sha1hex args3 = Inr h" by simp
      from UUIDAffs_step[OF call[unfolded Inr]] True h3 Cons.prems(3)
      show ?thesis by auto
    qed
    from Cons.IH[OF rest only_rest inv] show ?thesis .
  qed
qed

lemma UUIDAffs_case_variant_after_calls:
  assumes resp: "nfkd_respects_case nfkd"
      and var: "case_variant_args args1 args2"
      and miss1: "c (Join args1 '':'') = None"
      and miss2: "c (Join args2 '':'') = None"
      and call: "UUIDAffs nfkd sha1hex c args1 = (Inr h, c1)"
      and calls: "UUIDAffs_calls nfkd sha1hex c1 calls = Some c2"
      and only: "\<forall>args3 \<in> set calls. Join args3 '':'' = Join args2 '':'' \<longrightarrow> case_variant_args args1 args3"
  shows "fst (UUIDAffs nfkd sha1hex c2 args2) = Inr h"
proof -
  from UUIDAffs_miss[of c args1 nfkd sha1hex] miss1 call
  have h: "UUIDAffs_nocache nfkd sha1hex args1 = Inr h" by simp
  from UUIDAffs_step[OF call] miss1 have c1: "c1 = c(Join args1 '':'' \<mapsto> h)" by simp
  with miss2 have start: "c1 (Join args2 '':'') = None \<or> c1 (Join args2 '':'') = Some h" by simp
  from UUIDAffs_calls_variant_key[OF resp h calls only start]
  have "c2 (Join args2 '':'') = None \<or> c2 (Join args2 '':'') = Some h" .
  then show ?thesis
  proof
    assume "c2 (Join args2 '':'') = None"
    with UUIDAffs_miss[of c2 args2 nfkd sha1hex] UUIDAffs_nocache_case[OF resp var] h
    show ?thesis by simp
  next
    assume "c2 (Join args2 '':'') = Some h"
    then have "UUIDAffs nfkd sha1hex c2 args2 = (Inr h, c2)" by (rule UUIDAffs_hit)
    then show ?thesis by simp
  qed
qed

text \<open>
  Why the calls in between matter: after \<^verbatim>\<open>UUIDAffs("a", "<nil>")\<close>, which hashes
  \<open>a:none\<close>, the call \<^verbatim>\<open>UUIDAffs("A:<nil>")\<close> with one argument stores the hash of
  \<open>a:<nil>\<close> under the key \<^verbatim>\<open>A:<nil>\<close>, which is also the key of the case variant
  \<^verbatim>\<open>("A", "<nil>")\<close>; the variant then returns that entry.
\<close>

lemma UUIDAffs_case_variant_key_taken:
  "fst (UUIDAffs id id Map.empty [''a'', ''<nil>'']) = Inr ''a:none''
   \<and> case_variant_args [''a'', ''<nil>''] [''A'', ''<nil>'']
   \<and> fst (UUIDAffs id id
             (the (UUIDAffs_calls id id (snd (UUIDAffs id id Map.empty [''a'', ''<nil>''])) [[''A:<nil>'']]))
             [''A'', ''<nil>'']) = Inr ''a:<nil>''"
  by (simp add: case_variant_args_def same_modulo_case_def identifier_eval)

text \<open>
  Claim C3, as amended. A call of \<^verbatim>\<open>UUIDAffs\<close> whose first argument is not empty
  returns a hash \<open>h\<close>, and
  \<^item> the same tuple gives \<open>h\<close> again after any run of further calls in the process;
  \<^item> a case variant of the tuple (the same up to the case of ASCII letters, with the null
    sentinel \<^verbatim>\<open>"<nil>"\<close> spelled exactly at the same places) gives \<open>h\<close> too, from the
    same cache, and from the cache left by the first call and any run of further calls,
    when the cache held no entry under the raw colon-join of either tuple before the first
    call and every call of the run whose raw colon-join is that of the variant is itself a
    case variant of the tuple.
\<close>

theorem UUIDAffs_deterministic_case_invariant:
  assumes first: "a \<noteq> []"
  shows "\<exists>h c1. UUIDAffs nfkd sha1hex c (a # rest) = (Inr h, c1)
      \<and> (\<forall>calls c2. UUIDAffs_calls nfkd sha1hex c1 calls = Some c2
            \<longrightarrow> UUIDAffs nfkd sha1hex c2 (a # rest) = (Inr h, c2))
      \<and> (\<forall>args2 calls c2.
              nfkd_respects_case nfkd \<and> case_variant_args (a # rest) args2
            \<and> c (Join (a # rest) '':'') = None \<and> c (Join args2 '':'') = None
            \<and> UUIDAffs_calls nfkd sha1hex c1 calls = Some c2
            \<and> (\<forall>args3 \<in> set calls. Join args3 '':'' = Join args2 '':''
                   \<longrightarrow> case_variant_args (a # rest) args3)
            \<longrightarrow> fst (UUIDAffs nfkd sha1hex c args2) = Inr h
              \<and> fst (UUIDAffs nfkd sha1hex c2 args2) = Inr h)"
proof -
  from UUIDAffs_returns[OF first] obtain h c1 where
    call: "UUIDAffs nfkd sha1hex c (a # rest) = (Inr h, c1)" by blast
  have stored: "c1 (Join (a # rest) '':'') = Some h"
    by (rule UUIDAffs_result_cached[OF call])
  have again: "UUIDAffs nfkd sha1hex c2 (a # rest) = (Inr h, c2)"
    if "UUIDAffs_calls nfkd sha1hex c1 calls = Some c2" for calls c2
  proof -
    from UUIDAffs_calls_keeps_entries[OF that stored]
    have "c2 (Join (a # rest) '':'') = Some h" .
    then show ?thesis by (rule UUIDAffs_hit)
  qed
  have variant: "fst (UUIDAffs nfkd sha1hex c args2) = Inr h
               \<and> fst (UUIDAffs nfkd sha1hex c2 args2) = Inr h"
    if "nfkd_respects_case nfkd" "case_variant_args (a # rest) args2"
       "c (Join (a # rest) '':'') = None" "c (Join args2 '':'') = None"
       "UUIDAffs_calls nfkd sha1hex c1 calls = Some c2"
       "\<forall>args3 \<in> set calls. Join args3 '':'' = Join args2 '':'' \<longrightarrow> case_variant_args (a # rest) args3"
    for args2 calls c2
  proof
    from UUIDAffs_case_variant_after_miss[OF that(1-4) call]
    show "fst (UUIDAffs nfkd sha1hex c args2) = Inr h" by simp
    from UUIDAffs_case_variant_after_calls[OF that(1-4) call that(5,6)]
    show "fst (UUIDAffs nfkd sha1hex c2 args2) = Inr h" .
  qed
  from call again variant show ?thesis by blast
qed

text \<open>
  The theorem at the call \<^verbatim>\<open>UUIDAffs("Jira", "<nil>", "Bob")\<close> on an empty cache,
  with the identity for the normaliser (NFKD leaves ASCII text as it is) and for the hash, so
  that the result shows the bytes that are hashed: \<open>jira:none:bob\<close>, again after a call
  with another tuple, and for the case variant \<^verbatim>\<open>("JIRA", "<nil>", "bob")\<close>, before
  and after that call.
\<close>

theorem UUIDAffs_deterministic_case_invariant_witness:
  "''Jira'' \<noteq> [] \<and> nfkd_respects_case id
   \<and> case_variant_args [''Jira'', ''<nil>'', ''Bob''] [''JIRA'', ''<nil>'', ''bob'']
   \<and> Join [''git'', ''x''] '':'' \<noteq> Join [''JIRA'', ''<nil>'', ''bob''] '':''
   \<and> fst (UUIDAffs id id Map.empty [''Jira'', ''<nil>'', ''Bob'']) = Inr ''jira:none:bob''
   \<and> fst (UUIDAffs id id
             (the (UUIDAffs_calls id id (snd (UUIDAffs id id Map.empty [''Jira'', ''<nil>'', ''Bob''])) [[''git'', ''x'']]))
             [''Jira'', ''<nil>'', ''Bob'']) = Inr ''jira:none:bob''
   \<and> fst (UUIDAffs id id Map.empty [''JIRA'', ''<nil>'', ''bob'']) = Inr ''jira:none:bob''
   \<and> fst (UUIDAffs id id
             (the (UUIDAffs_calls id id (snd (UUIDAffs id id Map.empty [''Jira'', ''<nil>'', ''Bob''])) [[''git'', ''x'']]))
             [''JIRA'', ''<nil>'', ''bob'']) = Inr ''jira:none:bob''"
proof -
  have first: "''Jira'' \<noteq> []" by simp
  have resp: "nfkd_respects_case id" by (simp add: nfkd_respects_case_def)
  have var: "case_variant_args [''Jira'', ''<nil>'', ''Bob''] [''JIRA'', ''<nil>'', ''bob'']"
    by (simp add: case_variant_args_def same_modulo_case_def identifier_eval)
  have miss: "Map.empty (Join [''Jira'', ''<nil>'', ''Bob''] '':'') = (None :: string option)"
             "Map.empty (Join [''JIRA'', ''<nil>'', ''bob''] '':'') = (None :: string option)"
    by simp_all
  have other: "Join [''git'', ''x''] '':'' \<noteq> Join [''JIRA'', ''<nil>'', ''bob''] '':''"
    by simp
  then have only: "\<forall>args3 \<in> set [[''git'', ''x'']].
      Join args3 '':'' = Join [''JIRA'', ''<nil>'', ''bob''] '':''
        \<longrightarrow> case_variant_args [''Jira'', ''<nil>'', ''Bob''] args3"
    by simp
  have val: "fst (UUIDAffs id id Map.empty [''Jira'', ''<nil>'', ''Bob'']) = Inr ''jira:none:bob''"
    by (simp add: identifier_eval)
  from UUIDAffs_deterministic_case_invariant[OF first, of id id Map.empty "[''<nil>'', ''Bob'']"]
  obtain h c1 where
    call: "UUIDAffs id id Map.empty [''Jira'', ''<nil>'', ''Bob''] = (Inr h, c1)" and
    again: "\<And>calls c2. UUIDAffs_calls id id c1 calls = Some c2
              \<Longrightarrow> UUIDAffs id id c2 [''Jira'', ''<nil>'', ''Bob''] = (Inr h, c2)" and
    variant: "\<And>args2 calls c2. nfkd_respects_case id \<Longrightarrow> case_variant_args [''Jira'', ''<nil>'', ''Bob''] args2
              \<Longrightarrow> Map.empty (Join [''Jira'', ''<nil>'', ''Bob''] '':'') = (None :: string option)
              \<Longrightarrow> Map.empty (Join args2 '':'') = (None :: string option)
              \<Longrightarrow> UUIDAffs_calls id id c1 calls = Some c2
              \<Longrightarrow> \<forall>args3 \<in> set calls. Join args3 '':'' = Join args2 '':''
                     \<longrightarrow> case_variant_args [''Jira'', ''<nil>'', ''Bob''] args3
              \<Longrightarrow> fst (UUIDAffs id id Map.empty args2) = Inr h
                \<and> fst (UUIDAffs id id c2 args2) = Inr h"
    by blast
  from call val have h: "h = ''jira:none:bob''" by simp
  from call have c1: "snd (UUIDAffs id id Map.empty [''Jira'', ''<nil>'', ''Bob'']) = c1" by simp
  obtain c2 where calls: "UUIDAffs_calls id id c1 [[''git'', ''x'']] = Some c2"
    by (cases "UUIDAffs id id c1 [''git'', ''x'']"; cases "c1 ''git:x''")
       (auto simp: identifier_eval)
  from again[OF calls] h
  have "fst (UUIDAffs id id c2 [''Jira'', ''<nil>'', ''Bob'']) = Inr ''jira:none:bob''" by simp
  with calls c1
  have rep: "fst (UUIDAffs id id
             (the (UUIDAffs_calls id id (snd (UUIDAffs id id Map.empty [''Jira'', ''<nil>'', ''Bob''])) [[''git'', ''x'']]))
             [''Jira'', ''<nil>'', ''Bob'']) = Inr ''jira:none:bob''"
    by simp
  from variant[OF resp var miss calls only] h
  have v: "fst (UUIDAffs id id Map.empty [''JIRA'', ''<nil>'', ''bob'']) = Inr ''jira:none:bob''"
          "fst (UUIDAffs id id c2 [''JIRA'', ''<nil>'', ''bob'']) = Inr ''jira:none:bob''"
    by simp_all
  from v(2) calls c1
  have vrep: "fst (UUIDAffs id id
             (the (UUIDAffs_calls id id (snd (UUIDAffs id id Map.empty [''Jira'', ''<nil>'', ''Bob''])) [[''git'', ''x'']]))
             [''JIRA'', ''<nil>'', ''bob'']) = Inr ''jira:none:bob''"
    by simp
  from first resp var other val rep v(1) vrep show ?thesis by blast
qed

text \<open>
  Claim C3 as stated fails: \<^verbatim>\<open>"<nil>"\<close> and \<^verbatim>\<open>"<NIL>"\<close> differ in case only, but
  only the first is replaced by \<^verbatim>\<open>"None"\<close>, so the two calls hash different bytes
  (shown with the identity for the normaliser and the hash).
\<close>

theorem UUIDAffs_case_counterexample:
  "same_modulo_case ''<nil>'' ''<NIL>''
   \<and> fst (UUIDAffs id id Map.empty [''jira'', ''<nil>'']) = Inr ''jira:none''
   \<and> fst (UUIDAffs id id Map.empty [''jira'', ''<NIL>'']) = Inr ''jira:<nil>''
   \<and> UUIDAffs_nocache id id [''jira'', ''<nil>''] = Inr ''jira:none''
   \<and> UUIDAffs_nocache id id [''jira'', ''<NIL>''] = Inr ''jira:<nil>''"
  by (simp add: same_modulo_case_def identifier_eval)

section \<open>The strict identifier and its cache\<close>

lemma UUIDNonEmpty_same_key_hit:
  assumes "Join args2 '':'' = Join args1 '':''"
      and "UUIDNonEmpty nfkd sha1hex c args1 = (Inr h, c1)"
  shows "UUIDNonEmpty nfkd sha1hex c1 args2 = (Inr h, c1)"
proof -
  from UUIDNonEmpty_result_cached[OF assms(2)] assms(1)
  have "c1 (Join args2 '':'') = Some h" by simp
  then show ?thesis by (rule UUIDNonEmpty_hit)
qed

text \<open>
  Claim C9. The tuples \<^verbatim>\<open>("a:", "b")\<close> and \<^verbatim>\<open>("a", "", "b")\<close> differ and have the
  same colon-join \<^verbatim>\<open>"a::b"\<close>. On an empty cache the first call returns the hash \<open>h\<close>
  that the strict computation gives for the first tuple, and stores it. The call with the second
  tuple on the cache that the first call left returns \<open>h\<close> and leaves the cache as it is,
  although the strict computation on the second tuple, and the cached function on an empty cache,
  stop with the fatal error for an empty argument.
\<close>

theorem UUIDNonEmpty_cached_collision:
  "\<exists>h c1. UUIDNonEmpty nfkd sha1hex Map.empty [''a:'', ''b''] = (Inr h, c1)
      \<and> UUIDNonEmpty_nocache nfkd sha1hex [''a:'', ''b''] = Inr h
      \<and> [''a:'', ''b''] \<noteq> [''a'', [], ''b'']
      \<and> Join [''a'', [], ''b''] '':'' = Join [''a:'', ''b''] '':''
      \<and> UUIDNonEmpty nfkd sha1hex c1 [''a'', [], ''b''] = (Inr h, c1)
      \<and> UUIDNonEmpty_nocache nfkd sha1hex [''a'', [], ''b'']
            = Inl (Fatal ''UUIDNonEmpty - empty argument(s) not allowed'')
      \<and> fst (UUIDNonEmpty nfkd sha1hex Map.empty [''a'', [], ''b''])
            = Inl (Fatal ''UUIDNonEmpty - empty argument(s) not allowed'')"
proof -
  have key: "Join [''a'', [], ''b''] '':'' = Join [''a:'', ''b''] '':''" by simp
  obtain h where strict: "UUIDNonEmpty_nocache nfkd sha1hex [''a:'', ''b''] = Inr h"
    by (simp add: UUIDNonEmpty_nocache_def)
  have miss: "Map.empty (Join [''a:'', ''b''] '':'') = (None :: string option)" by simp
  from UUIDNonEmpty_miss[of Map.empty "[''a:'', ''b'']" nfkd sha1hex] miss strict
  have "fst (UUIDNonEmpty nfkd sha1hex Map.empty [''a:'', ''b'']) = Inr h" by simp
  then obtain c1 where first: "UUIDNonEmpty nfkd sha1hex Map.empty [''a:'', ''b''] = (Inr h, c1)"
    by (cases "UUIDNonEmpty nfkd sha1hex Map.empty [''a:'', ''b'']") auto
  have second: "UUIDNonEmpty nfkd sha1hex c1 [''a'', [], ''b''] = (Inr h, c1)"
    by (rule UUIDNonEmpty_same_key_hit[OF key first])
  have fatal: "UUIDNonEmpty_nocache nfkd sha1hex [''a'', [], ''b'']
            = Inl (Fatal ''UUIDNonEmpty - empty argument(s) not allowed'')"
    by (simp add: UUIDNonEmpty_nocache_def)
  have miss2: "Map.empty (Join [''a'', [], ''b''] '':'') = (None :: string option)" by simp
  from UUIDNonEmpty_miss[of Map.empty "[''a'', [], ''b'']" nfkd sha1hex] miss2 fatal
  have fatal2: "fst (UUIDNonEmpty nfkd sha1hex Map.empty [''a'', [], ''b''])
            = Inl (Fatal ''UUIDNonEmpty - empty argument(s) not allowed'')" by simp
  have differ: "[''a:'', ''b''] \<noteq> [''a'', [], ''b'']" by simp
  from first strict differ key second fatal fatal2 show ?thesis by blast
qed

text \<open>
  Claim C2 against the code. Stated with the identity for the normaliser (NFKD leaves these
  inputs as they are) and for the hash, so that a result shows the bytes that are hashed.
  \<^item> \<^verbatim>\<open>UUIDNonEmpty("http:", "x")\<close> and then \<^verbatim>\<open>UUIDNonEmpty("http", "", "x")\<close>: the
    second call has an empty argument and returns the hash of the first, taken from the cache,
    where the uncached function of ds.go stops with the fatal error.
  \<^item> An argument that is not empty and of which the stripping leaves nothing (here the three
    bytes of one CJK character) adds no separator: the bytes hashed for
    \<^verbatim>\<open>(<U+65E5>, "b")\<close> are \<^verbatim>\<open>"b"\<close>, while the normalised arguments joined
    with colons are \<^verbatim>\<open>":b"\<close>.
\<close>

theorem UUIDNonEmpty_empty_argument_from_cache:
  "fst (UUIDNonEmpty id id (snd (UUIDNonEmpty id id Map.empty [''http:'', ''x''])) [''http'', [], ''x''])
     = Inr ''http::x''
   \<and> UUIDNonEmpty_nocache id id [''http'', [], ''x'']
     = Inl (Fatal ''UUIDNonEmpty - empty argument(s) not allowed'')
   \<and> UUIDNonEmpty_nocache id id [[CHR 0xE6, CHR 0x97, CHR 0xA5], ''b''] = Inr ''b''
   \<and> fst (UUIDNonEmpty id id Map.empty [[CHR 0xE6, CHR 0x97, CHR 0xA5], ''b'']) = Inr ''b''
   \<and> Join (map (stripF id) [[CHR 0xE6, CHR 0x97, CHR 0xA5], ''b'']) '':'' = '':b''"
  by (simp add: identifier_eval)

section \<open>Transport layer: the three sets of status ranges\<close>

lemma status_hit_in_some_range: "status_hit ranges status = in_some_range ranges status"
  by (induction ranges) (auto simp: in_some_range_def)

lemma Request_trace:
  "snd (Request Unmarshal srv tr url meth headers payload jsonStatuses errorStatuses okStatuses)
     = tr @ [\<lparr>r_method = meth, r_url = url, r_headers = headers, r_payload = payload\<rparr>]"
  by (simp add: Request_def Let_def split: http_reply.splits option.splits)

lemma Request_on_response:
  assumes "srv tr \<lparr>r_method = meth, r_url = url, r_headers = headers, r_payload = payload\<rparr> = Response s body"
  shows "Request Unmarshal srv tr url meth headers payload jsonStatuses errorStatuses okStatuses =
     ((case (if status_hit jsonStatuses s then Unmarshal body else Some (IBytes body)) of
         None \<Rightarrow> (INil, s, Some UnmarshalErr)
       | Some result \<Rightarrow>
           (result, s,
            (if okStatuses \<noteq> [] \<and> \<not> status_hit okStatuses s then Some StatusNotSuccessErr
             else if status_hit errorStatuses s then Some StatusErr else None))),
      tr @ [\<lparr>r_method = meth, r_url = url, r_headers = headers, r_payload = payload\<rparr>])"
  using assms by (simp add: Request_def Let_def split: option.splits)

text \<open>
  Claim C5. When the server answers with the status \<open>s\<close> and the body \<open>body\<close>,
  \<^verbatim>\<open>Request\<close> returns \<open>s\<close> as the status, and
  \<^item> if \<open>s\<close> falls in a JSON range, the result is the decoded body, or decoding failed and
    the error is the decoding error; if \<open>s\<close> falls in no JSON range, the result is the raw body;
  \<^item> the error is not nil if \<open>s\<close> falls in an error range;
  \<^item> the error is not nil if there are OK ranges and \<open>s\<close> falls in none of them;
  \<^item> if \<open>s\<close> falls in a JSON range, in no error range, and in an OK range if there is one,
    the error is nil exactly when decoding succeeds.
\<close>

theorem Request_status_ranges:
  assumes "srv tr \<lparr>r_method = meth, r_url = url, r_headers = headers, r_payload = payload\<rparr> = Response s body"
  shows "\<exists>result err tr1.
      Request Unmarshal srv tr url meth headers payload jsonStatuses errorStatuses okStatuses
        = ((result, s, err), tr1)
      \<and> (in_some_range jsonStatuses s \<longrightarrow>
            (Unmarshal body = Some result \<or> (Unmarshal body = None \<and> err = Some UnmarshalErr)))
      \<and> (\<not> in_some_range jsonStatuses s \<longrightarrow> result = IBytes body)
      \<and> (in_some_range errorStatuses s \<longrightarrow> err \<noteq> None)
      \<and> (okStatuses \<noteq> [] \<and> \<not> in_some_range okStatuses s \<longrightarrow> err \<noteq> None)
      \<and> (in_some_range jsonStatuses s \<and> \<not> in_some_range errorStatuses s
           \<and> (okStatuses = [] \<or> in_some_range okStatuses s)
           \<longrightarrow> (err = None) = (Unmarshal body \<noteq> None))"
proof -
  note eq = Request_on_response[where srv = srv and tr = tr and meth = meth and url = url
      and headers = headers and payload = payload and s = s and body = body
      and Unmarshal = Unmarshal and jsonStatuses = jsonStatuses
      and errorStatuses = errorStatuses and okStatuses = okStatuses]
  show ?thesis
    unfolding eq[OF assms] status_hit_in_some_range
    by (cases "Unmarshal body") auto
qed

text \<open>
  The theorem at a PUT that the example server answers with 201 and an empty body, with the
  ranges of the one-by-one mode and, to have the body decoded, 200-299 as JSON range: the
  body does not decode, so the error is the decoding error; with no JSON range the result is
  the raw body and the error is nil.
\<close>

theorem Request_status_ranges_witness:
  "example_srv [] \<lparr>r_method = Put, r_url = ''http://es/rich/_doc/2'', r_headers = [], r_payload = ''2''\<rparr>
     = Response 201 []
   \<and> in_some_range [(200, 299)] 201 \<and> \<not> in_some_range [(400, 599)] 201 \<and> in_some_range [(200, 201)] 201
   \<and> fst (Request example_Unmarshal example_srv [] ''http://es/rich/_doc/2'' Put [] ''2''
             [(200, 299)] [(400, 599)] [(200, 201)]) = (INil, 201, Some UnmarshalErr)
   \<and> fst (Request example_Unmarshal example_srv [] ''http://es/rich/_doc/2'' Put [] ''2''
             [] [(400, 599)] [(200, 201)]) = (IBytes [], 201, None)"
proof -
  have reply: "example_srv [] \<lparr>r_method = Put, r_url = ''http://es/rich/_doc/2'', r_headers = [], r_payload = ''2''\<rparr>
     = Response 201 []"
    by (simp add: example_srv_def)
  have ranges: "in_some_range [(200, 299)] 201" "\<not> in_some_range [(400, 599)] 201"
      "in_some_range [(200, 201)] 201" "\<not> in_some_range [] 201"
    by (simp_all add: in_some_range_def)
  have undecodable: "example_Unmarshal [] = None"
    by (simp add: example_Unmarshal_def)
  note inst = Request_status_ranges[where srv = example_srv and tr = "[]" and meth = Put
      and url = "''http://es/rich/_doc/2''" and headers = "[]" and payload = "''2''"
      and s = 201 and body = "[]" and Unmarshal = example_Unmarshal and errorStatuses = "[(400, 599)]"
      and okStatuses = "[(200, 201)]"]
  note eval = Request_on_response[where srv = example_srv and tr = "[]" and meth = Put
      and url = "''http://es/rich/_doc/2''" and headers = "[]" and payload = "''2''"
      and s = 201 and body = "[]" and Unmarshal = example_Unmarshal and errorStatuses = "[(400, 599)]"
      and okStatuses = "[(200, 201)]"]
  from inst[OF reply, of "[(200, 299)]"] ranges undecodable
  obtain result tr1 where
    "Request example_Unmarshal example_srv [] ''http://es/rich/_doc/2'' Put [] ''2''
        [(200, 299)] [(400, 599)] [(200, 201)] = ((result, 201, Some UnmarshalErr), tr1)"
    by auto
  moreover have "fst (Request example_Unmarshal example_srv [] ''http://es/rich/_doc/2'' Put [] ''2''
        [(200, 299)] [(400, 599)] [(200, 201)]) = (INil, 201, Some UnmarshalErr)"
    by (simp add: eval[OF reply] undecodable)
  moreover
  from inst[OF reply, of "[]"] ranges
  obtain err tr2 where
    "Request example_Unmarshal example_srv [] ''http://es/rich/_doc/2'' Put [] ''2''
        [] [(400, 599)] [(200, 201)] = ((IBytes [], 201, err), tr2)"
    by auto
  moreover have "fst (Request example_Unmarshal example_srv [] ''http://es/rich/_doc/2'' Put [] ''2''
        [] [(400, 599)] [(200, 201)]) = (IBytes [], 201, None)"
    by (simp add: eval[OF reply])
  ultimately show ?thesis using reply ranges by blast
qed

section \<open>Bulk writer: the one-by-one mode\<close>

lemma bulk_payload_items:
  "bulk_payload Marshal key p items = Inr (Inr payloads) \<Longrightarrow>
   \<forall>item \<in> set items. \<exists>m uuid doc.
      item = IMap m \<and> map_of m key = Some (IStr uuid) \<and> Marshal item = Some doc"
proof (induction items arbitrary: p)
  case Nil
  then show ?case by simp
next
  case (Cons item items)
  from Cons.prems obtain doc m uuid where
    item: "Marshal item = Some doc" "item = IMap m" "map_of m key = Some (IStr uuid)" and
    rest: "bulk_payload Marshal key
             (p @ (''{\"index\":{\"_id\":\"'' @ uuid @ ''\"}}'' @ [CHR 0x0A]) @ doc @ [CHR 0x0A]) items
           = Inr (Inr payloads)"
    by (auto split: option.splits iface.splits)
  from Cons.IH[OF rest] item show ?case by auto
qed

lemma upsert_request_of_map:
  "upsert_request Marshal ctx raw key (IMap m) =
     doc_request Marshal (ESURL ctx @ ''/'' @ (if raw then RawIndex ctx else RichIndex ctx) @ ''/_doc/'') key m (IMap m)"
  by (simp add: upsert_request_def)

lemma doc_request_rebuilt:
  "\<lparr>r_method = Put, r_url = r_url (doc_request Marshal url key m item),
     r_headers = r_headers (doc_request Marshal url key m item),
     r_payload = r_payload (doc_request Marshal url key m item)\<rparr> = doc_request Marshal url key m item"
  by (simp add: doc_request_def)

lemma fallback_loop_run:
  assumes "\<forall>item \<in> set items. \<exists>m. item = IMap m"
  shows "fallback_loop Marshal Unmarshal srv
           (ESURL ctx @ ''/'' @ (if raw then RawIndex ctx else RichIndex ctx) @ ''/_doc/'') key items e0 tr
         = Inr (if items = [] then e0
                else upsert_err Unmarshal srv (tr @ map (upsert_request Marshal ctx raw key) (butlast items))
                       (upsert_request Marshal ctx raw key (last items)),
                tr @ map (upsert_request Marshal ctx raw key) items)"
  using assms
proof (induction items arbitrary: e0 tr)
  case Nil
  show ?case by simp
next
  case (Cons item items)
  define url1 where "url1 = ESURL ctx @ ''/'' @ (if raw then RawIndex ctx else RichIndex ctx) @ ''/_doc/''"
  from Cons.prems obtain m where item: "item = IMap m" by auto
  define req where "req = doc_request Marshal url1 key m (IMap m)"
  have up: "upsert_request Marshal ctx raw key item = req"
    by (simp add: item req_def url1_def upsert_request_of_map)
  obtain res st e1 tr1 where
    r: "Request Unmarshal srv tr (r_url req) Put (r_headers req) (r_payload req)
          [] [(400, 599)] [(200, 201)] = ((res, st, e1), tr1)"
    by (metis prod_cases3 surj_pair)
  from r Request_trace[of Unmarshal srv tr "r_url req" Put "r_headers req" "r_payload req"
                          "[]" "[(400, 599)]" "[(200, 201)]"]
  have tr1: "tr1 = tr @ [req]"
    by (simp add: req_def doc_request_rebuilt)
  from r have e1: "e1 = upsert_err Unmarshal srv tr req"
    by (simp add: upsert_err_def Request_err_def)
  have step: "fallback_loop Marshal Unmarshal srv url1 key (item # items) e0 tr
            = fallback_loop Marshal Unmarshal srv url1 key items (upsert_err Unmarshal srv tr req) (tr @ [req])"
    using r[unfolded tr1 e1]
    by (simp add: item req_def[symmetric] Let_def)
  from Cons.prems have rest: "\<forall>item \<in> set items. \<exists>m. item = IMap m" by simp
  note IH = Cons.IH[OF rest, of "upsert_err Unmarshal srv tr req" "tr @ [req]", folded url1_def]
  show ?case
    unfolding url1_def[symmetric] step IH
    by (cases "items = []") (simp_all add: up)
qed

lemma bulk_request_rebuilt:
  "\<lparr>r_method = Post, r_url = r_url (bulk_request ctx raw payloads),
     r_headers = r_headers (bulk_request ctx raw payloads),
     r_payload = r_payload (bulk_request ctx raw payloads)\<rparr> = bulk_request ctx raw payloads"
  by (simp add: bulk_request_def)

lemma SendToElastic_fallback:
  assumes payload: "bulk_payload Marshal key [] items = Inr (Inr payloads)"
      and failed: "Request_err (Request Unmarshal srv tr (r_url (bulk_request ctx raw payloads)) Post
                     (r_headers (bulk_request ctx raw payloads)) (r_payload (bulk_request ctx raw payloads))
                     [] [(400, 599)] []) = Some bulk_err"
  shows "SendToElastic Marshal Unmarshal srv ctx name raw key items tr lg =
     (Inr (if items = [] then None
           else upsert_err Unmarshal srv
                  (tr @ bulk_request ctx raw payloads # map (upsert_request Marshal ctx raw key) (butlast items))
                  (upsert_request Marshal ctx raw key (last items))),
      tr @ bulk_request ctx raw payloads # map (upsert_request Marshal ctx raw key) items,
      lg @ (if Debug ctx > 0 then [LogSaving name (length items)] else [])
         @ [LogBulkFailed name (length items)]
         @ (if Debug ctx > 1 then [LogError bulk_err] else [])
         @ (if Debug ctx > 0 then [LogSavedNonBulk name (length items)] else []))"
proof -
  define bulk where "bulk = bulk_request ctx raw payloads"
  obtain res st e tr1 where
    r: "Request Unmarshal srv tr (r_url bulk) Post (r_headers bulk) (r_payload bulk)
          [] [(400, 599)] [] = ((res, st, e), tr1)"
    by (metis prod_cases3 surj_pair)
  from r Request_trace[of Unmarshal srv tr "r_url bulk" Post "r_headers bulk" "r_payload bulk"
                          "[]" "[(400, 599)]" "[]"]
  have tr1: "tr1 = tr @ [bulk]"
    by (simp add: bulk_def bulk_request_rebuilt)
  from r failed have e: "e = Some bulk_err"
    by (simp add: bulk_def Request_err_def)
  from bulk_payload_items[OF payload] have maps: "\<forall>item \<in> set items. \<exists>m. item = IMap m"
    by blast
  note loop = fallback_loop_run[OF maps, of Marshal Unmarshal srv ctx raw key None "tr @ [bulk]"]
  from r[unfolded tr1 e]
  have r_eq: "Request Unmarshal srv tr
                (ESURL ctx @ ''/'' @ (if raw then RawIndex ctx else RichIndex ctx) @ ''/_bulk?refresh='' @ BulkRefreshMode)
                Post [(''Content-Type'', ''application/x-ndjson'')] payloads [] [(400, 599)] []
              = ((res, st, Some bulk_err), tr @ [bulk])"
    by (simp add: bulk_def bulk_request_def)
  show ?thesis
    using r_eq loop
    by (simp add: SendToElastic_def Let_def payload bulk_def[symmetric])
qed

lemma upsert_err_on_response:
  assumes "srv tr req = Response s body" "r_method req = Put"
  shows "(upsert_err Unmarshal srv tr req = None) = (200 \<le> s \<and> s \<le> 201)"
proof -
  have req: "\<lparr>r_method = Put, r_url = r_url req, r_headers = r_headers req, r_payload = r_payload req\<rparr> = req"
    using assms(2) by simp
  with assms(1) have reply:
    "srv tr \<lparr>r_method = Put, r_url = r_url req, r_headers = r_headers req, r_payload = r_payload req\<rparr>
       = Response s body" by simp
  note eq = Request_on_response[where srv = srv and tr = tr and meth = Put and url = "r_url req"
      and headers = "r_headers req" and payload = "r_payload req" and s = s and body = body
      and Unmarshal = Unmarshal and jsonStatuses = "[]" and errorStatuses = "[(400, 599)]"
      and okStatuses = "[(200, 201)]"]
  show ?thesis
    unfolding upsert_err_def Request_err_def eq[OF reply] by auto
qed

lemma example_bulk_payload:
  "bulk_payload example_Marshal ''uuid'' [] [example_doc1, example_doc2] = Inr (Inr example_payloads)"
  by (simp add: example_Marshal_def example_doc1_def example_doc2_def example_payloads_def)

lemma example_bulk_fails:
  "Request_err (Request example_Unmarshal example_srv [] (r_url (bulk_request example_ctx False example_payloads)) Post
      (r_headers (bulk_request example_ctx False example_payloads))
      (r_payload (bulk_request example_ctx False example_payloads)) [] [(400, 599)] []) = Some StatusErr"
  by (simp add: Request_err_def Request_def Let_def example_srv_def bulk_request_def)

lemma example_upsert_requests:
  "upsert_request example_Marshal example_ctx False ''uuid'' example_doc1
     = \<lparr>r_method = Put, r_url = ''http://es/rich/_doc/1'',
        r_headers = [(''Content-Type'', ''application/json'')], r_payload = ''1''\<rparr>"
  "upsert_request example_Marshal example_ctx False ''uuid'' example_doc2
     = \<lparr>r_method = Put, r_url = ''http://es/rich/_doc/2'',
        r_headers = [(''Content-Type'', ''application/json'')], r_payload = ''2''\<rparr>"
  by (simp_all add: upsert_request_def doc_request_def example_Marshal_def example_doc1_def
        example_doc2_def example_ctx_def)

text \<open>
  Claim C4. Take a batch whose bulk payload could be built and whose bulk request returned an
  error. Then \<^verbatim>\<open>SendToElastic\<close> returns (it does not panic), and the requests it has made
  are the bulk request followed by one request per document of the batch, in the order of the
  batch, whatever the server answered to any of them. Each of these requests is the PUT of the
  marshalled document to the document URL with the document's identifier, and its error is nil
  exactly for a status from 200 to 201.
\<close>

theorem SendToElastic_fallback_attempts_every_document:
  assumes payload: "bulk_payload Marshal key [] items = Inr (Inr payloads)"
      and failed: "Request_err (Request Unmarshal srv tr (r_url (bulk_request ctx raw payloads)) Post
                     (r_headers (bulk_request ctx raw payloads)) (r_payload (bulk_request ctx raw payloads))
                     [] [(400, 599)] []) \<noteq> None"
  shows "(\<exists>e lg1. SendToElastic Marshal Unmarshal srv ctx name raw key items tr lg
            = (Inr e, tr @ bulk_request ctx raw payloads # map (upsert_request Marshal ctx raw key) items, lg1))
       \<and> (\<forall>item \<in> set items. \<exists>m uuid doc.
              item = IMap m \<and> map_of m key = Some (IStr uuid) \<and> Marshal item = Some doc
            \<and> upsert_request Marshal ctx raw key item
                = \<lparr>r_method = Put,
                   r_url = ESURL ctx @ ''/'' @ (if raw then RawIndex ctx else RichIndex ctx) @ ''/_doc/'' @ uuid,
                   r_headers = [(''Content-Type'', ''application/json'')],
                   r_payload = doc\<rparr>)
       \<and> (\<forall>tr0 item s body.
              item \<in> set items \<and> srv tr0 (upsert_request Marshal ctx raw key item) = Response s body
              \<longrightarrow> (upsert_err Unmarshal srv tr0 (upsert_request Marshal ctx raw key item) = None)
                    = (200 \<le> s \<and> s \<le> 201))"
proof -
  from failed obtain bulk_err where
    err: "Request_err (Request Unmarshal srv tr (r_url (bulk_request ctx raw payloads)) Post
                     (r_headers (bulk_request ctx raw payloads)) (r_payload (bulk_request ctx raw payloads))
                     [] [(400, 599)] []) = Some bulk_err"
    by blast
  have run: "\<exists>e lg1. SendToElastic Marshal Unmarshal srv ctx name raw key items tr lg
            = (Inr e, tr @ bulk_request ctx raw payloads # map (upsert_request Marshal ctx raw key) items, lg1)"
    unfolding SendToElastic_fallback[OF payload err] by blast
  have docs: "\<exists>m uuid doc.
              item = IMap m \<and> map_of m key = Some (IStr uuid) \<and> Marshal item = Some doc
            \<and> upsert_request Marshal ctx raw key item
                = \<lparr>r_method = Put,
                   r_url = ESURL ctx @ ''/'' @ (if raw then RawIndex ctx else RichIndex ctx) @ ''/_doc/'' @ uuid,
                   r_headers = [(''Content-Type'', ''application/json'')],
                   r_payload = doc\<rparr>" if "item \<in> set items" for item
  proof -
    from bulk_payload_items[OF payload] that obtain m uuid doc where
      item: "item = IMap m" "map_of m key = Some (IStr uuid)" "Marshal item = Some doc"
      by blast
    then have "upsert_request Marshal ctx raw key item
                = \<lparr>r_method = Put,
                   r_url = ESURL ctx @ ''/'' @ (if raw then RawIndex ctx else RichIndex ctx) @ ''/_doc/'' @ uuid,
                   r_headers = [(''Content-Type'', ''application/json'')],
                   r_payload = doc\<rparr>"
      by (simp add: upsert_request_def doc_request_def)
    with item show ?thesis by blast
  qed
  have put: "r_method (upsert_request Marshal ctx raw key item) = Put" for item
    by (simp add: upsert_request_def doc_request_def)
  have ok: "(upsert_err Unmarshal srv tr0 (upsert_request Marshal ctx raw key item) = None)
                    = (200 \<le> s \<and> s \<le> 201)"
    if "srv tr0 (upsert_request Marshal ctx raw key item) = Response s body" for tr0 item s body
    using that put[of item]
    by (rule upsert_err_on_response[where srv = srv and tr = tr0 and s = s and body = body
          and req = "upsert_request Marshal ctx raw key item"])
  from run docs ok show ?thesis by blast
qed

text \<open>
  The theorem at the example batch of two documents on the example server, which rejects the
  bulk request and the first document: the requests made are the bulk request, the PUT of
  document 1 and the PUT of document 2.
\<close>

theorem SendToElastic_fallback_attempts_every_document_witness:
  "bulk_payload example_Marshal ''uuid'' [] [example_doc1, example_doc2] = Inr (Inr example_payloads)
   \<and> Request_err (Request example_Unmarshal example_srv [] (r_url (bulk_request example_ctx False example_payloads)) Post
        (r_headers (bulk_request example_ctx False example_payloads))
        (r_payload (bulk_request example_ctx False example_payloads)) [] [(400, 599)] []) \<noteq> None
   \<and> upsert_err example_Unmarshal example_srv [bulk_request example_ctx False example_payloads]
        (upsert_request example_Marshal example_ctx False ''uuid'' example_doc1) \<noteq> None
   \<and> (\<exists>e lg1. SendToElastic example_Marshal example_Unmarshal example_srv example_ctx ''jira'' False ''uuid''
                  [example_doc1, example_doc2] [] []
         = (Inr e,
            [bulk_request example_ctx False example_payloads,
             \<lparr>r_method = Put, r_url = ''http://es/rich/_doc/1'',
               r_headers = [(''Content-Type'', ''application/json'')], r_payload = ''1''\<rparr>,
             \<lparr>r_method = Put, r_url = ''http://es/rich/_doc/2'',
               r_headers = [(''Content-Type'', ''application/json'')], r_payload = ''2''\<rparr>],
            lg1))"
proof -
  have failed: "Request_err (Request example_Unmarshal example_srv [] (r_url (bulk_request example_ctx False example_payloads)) Post
        (r_headers (bulk_request example_ctx False example_payloads))
        (r_payload (bulk_request example_ctx False example_payloads)) [] [(400, 599)] []) \<noteq> None"
    by (simp add: example_bulk_fails)
  have first_fails: "upsert_err example_Unmarshal example_srv [bulk_request example_ctx False example_payloads]
        (upsert_request example_Marshal example_ctx False ''uuid'' example_doc1) \<noteq> None"
    by (simp add: example_upsert_requests upsert_err_def Request_err_def Request_def Let_def example_srv_def)
  from SendToElastic_fallback_attempts_every_document[OF example_bulk_payload failed, of "''jira''" "[]"]
  have "\<exists>e lg1. SendToElastic example_Marshal example_Unmarshal example_srv example_ctx ''jira'' False ''uuid''
                  [example_doc1, example_doc2] [] []
         = (Inr e, [] @ bulk_request example_ctx False example_payloads
                     # map (upsert_request example_Marshal example_ctx False ''uuid'') [example_doc1, example_doc2],
            lg1)"
    by blast
  then have "\<exists>e lg1. SendToElastic example_Marshal example_Unmarshal example_srv example_ctx ''jira'' False ''uuid''
                  [example_doc1, example_doc2] [] []
         = (Inr e,
            [bulk_request example_ctx False example_payloads,
             \<lparr>r_method = Put, r_url = ''http://es/rich/_doc/1'',
               r_headers = [(''Content-Type'', ''application/json'')], r_payload = ''1''\<rparr>,
             \<lparr>r_method = Put, r_url = ''http://es/rich/_doc/2'',
               r_headers = [(''Content-Type'', ''application/json'')], r_payload = ''2''\<rparr>],
            lg1)"
    by (simp add: example_upsert_requests)
  with example_bulk_payload failed first_fails show ?thesis by blast
qed

text \<open>
  Claim C10. Take a batch whose bulk payload could be built and whose bulk request returned
  the error \<open>bulk_err\<close>. Then \<^verbatim>\<open>SendToElastic\<close> returns \<open>e\<close>, where
  \<^item> \<open>e\<close> is nil for an empty batch and otherwise the error of the request for the last
    document, so \<open>e\<close> is nil when the server answers that request with a status from 200 to
    201, whatever became of the requests for the documents before it;
  \<^item> the lines printed are the announcement of the batch (at debug level 1), the line on the
    failed bulk upload, the bulk error (at debug level 2) and the closing line (at debug level
    1): no line depends on the request of a single document.
\<close>

theorem SendToElastic_fallback_returns_last_error:
  assumes payload: "bulk_payload Marshal key [] items = Inr (Inr payloads)"
      and failed: "Request_err (Request Unmarshal srv tr (r_url (bulk_request ctx raw payloads)) Post
                     (r_headers (bulk_request ctx raw payloads)) (r_payload (bulk_request ctx raw payloads))
                     [] [(400, 599)] []) = Some bulk_err"
  shows "\<exists>e tr1.
      SendToElastic Marshal Unmarshal srv ctx name raw key items tr lg =
        (Inr e, tr1,
         lg @ (if Debug ctx > 0 then [LogSaving name (length items)] else [])
            @ [LogBulkFailed name (length items)]
            @ (if Debug ctx > 1 then [LogError bulk_err] else [])
            @ (if Debug ctx > 0 then [LogSavedNonBulk name (length items)] else []))
      \<and> e = (if items = [] then None
              else upsert_err Unmarshal srv
                     (tr @ bulk_request ctx raw payloads # map (upsert_request Marshal ctx raw key) (butlast items))
                     (upsert_request Marshal ctx raw key (last items)))
      \<and> (\<forall>s body.
            items \<noteq> []
            \<and> srv (tr @ bulk_request ctx raw payloads # map (upsert_request Marshal ctx raw key) (butlast items))
                  (upsert_request Marshal ctx raw key (last items)) = Response s body
            \<and> 200 \<le> s \<and> s \<le> 201
            \<longrightarrow> e = None)"
proof -
  define e where "e = (if items = [] then None
              else upsert_err Unmarshal srv
                     (tr @ bulk_request ctx raw payloads # map (upsert_request Marshal ctx raw key) (butlast items))
                     (upsert_request Marshal ctx raw key (last items)))"
  have put: "r_method (upsert_request Marshal ctx raw key (last items)) = Put"
    by (simp add: upsert_request_def doc_request_def)
  have last_ok: "e = None"
    if "items \<noteq> []"
       "srv (tr @ bulk_request ctx raw payloads # map (upsert_request Marshal ctx raw key) (butlast items))
            (upsert_request Marshal ctx raw key (last items)) = Response s body"
       "200 \<le> s" "s \<le> 201" for s body
    using upsert_err_on_response[where srv = srv and s = s and body = body and Unmarshal = Unmarshal
        and tr = "tr @ bulk_request ctx raw payloads # map (upsert_request Marshal ctx raw key) (butlast items)"
        and req = "upsert_request Marshal ctx raw key (last items)", OF that(2) put] that(1,3,4)
    by (simp add: e_def)
  note run = SendToElastic_fallback[OF payload failed, of name lg, folded e_def]
  show ?thesis
  proof (intro exI conjI allI impI)
    show "SendToElastic Marshal Unmarshal srv ctx name raw key items tr lg =
        (Inr e, tr @ bulk_request ctx raw payloads # map (upsert_request Marshal ctx raw key) items,
         lg @ (if Debug ctx > 0 then [LogSaving name (length items)] else [])
            @ [LogBulkFailed name (length items)]
            @ (if Debug ctx > 1 then [LogError bulk_err] else [])
            @ (if Debug ctx > 0 then [LogSavedNonBulk name (length items)] else []))"
      by (rule run)
    show "e = (if items = [] then None
              else upsert_err Unmarshal srv
                     (tr @ bulk_request ctx raw payloads # map (upsert_request Marshal ctx raw key) (butlast items))
                     (upsert_request Marshal ctx raw key (last items)))"
      by (rule e_def)
    show "e = None"
      if "items \<noteq> []
            \<and> srv (tr @ bulk_request ctx raw payloads # map (upsert_request Marshal ctx raw key) (butlast items))
                  (upsert_request Marshal ctx raw key (last items)) = Response s body
            \<and> 200 \<le> s \<and> s \<le> 201" for s body
      using that last_ok by blast
  qed
qed

text \<open>
  The theorem at the example batch on the example server, at debug level 0: the request for
  document 1 returns an error, the request for document 2 succeeds, and
  \<^verbatim>\<open>SendToElastic\<close> returns nil and has printed the line on the bulk upload only.
\<close>

theorem SendToElastic_fallback_returns_last_error_witness:
  "bulk_payload example_Marshal ''uuid'' [] [example_doc1, example_doc2] = Inr (Inr example_payloads)
   \<and> Request_err (Request example_Unmarshal example_srv [] (r_url (bulk_request example_ctx False example_payloads)) Post
        (r_headers (bulk_request example_ctx False example_payloads))
        (r_payload (bulk_request example_ctx False example_payloads)) [] [(400, 599)] []) = Some StatusErr
   \<and> upsert_err example_Unmarshal example_srv [bulk_request example_ctx False example_payloads]
        (upsert_request example_Marshal example_ctx False ''uuid'' example_doc1) = Some StatusNotSuccessErr
   \<and> (\<exists>tr1. SendToElastic example_Marshal example_Unmarshal example_srv example_ctx ''jira'' False ''uuid''
              [example_doc1, example_doc2] [] []
         = (Inr None, tr1, [LogBulkFailed ''jira'' 2]))"
proof -
  have first_fails: "upsert_err example_Unmarshal example_srv [bulk_request example_ctx False example_payloads]
        (upsert_request example_Marshal example_ctx False ''uuid'' example_doc1) = Some StatusNotSuccessErr"
    by (simp add: example_upsert_requests upsert_err_def Request_err_def Request_def Let_def example_srv_def)
  have last_reply: "example_srv
        ([] @ bulk_request example_ctx False example_payloads
            # map (upsert_request example_Marshal example_ctx False ''uuid'') (butlast [example_doc1, example_doc2]))
        (upsert_request example_Marshal example_ctx False ''uuid'' (last [example_doc1, example_doc2]))
      = Response 201 []"
    by (simp add: example_upsert_requests example_srv_def)
  from SendToElastic_fallback_returns_last_error[OF example_bulk_payload example_bulk_fails, of "''jira''" "[]"]
  obtain e tr1 where
    run: "SendToElastic example_Marshal example_Unmarshal example_srv example_ctx ''jira'' False ''uuid''
              [example_doc1, example_doc2] [] []
         = (Inr e, tr1,
            [] @ (if Debug example_ctx > 0 then [LogSaving ''jira'' (length [example_doc1, example_doc2])] else [])
               @ [LogBulkFailed ''jira'' (length [example_doc1, example_doc2])]
               @ (if Debug example_ctx > 1 then [LogError StatusErr] else [])
               @ (if Debug example_ctx > 0 then [LogSavedNonBulk ''jira'' (length [example_doc1, example_doc2])] else []))" and
    last_ok: "\<And>s body. [example_doc1, example_doc2] \<noteq> [] \<Longrightarrow>
        example_srv
          ([] @ bulk_request example_ctx False example_payloads
              # map (upsert_request example_Marshal example_ctx False ''uuid'') (butlast [example_doc1, example_doc2]))
          (upsert_request example_Marshal example_ctx False ''uuid'' (last [example_doc1, example_doc2]))
        = Response s body \<Longrightarrow> 200 \<le> s \<Longrightarrow> s \<le> 201 \<Longrightarrow> e = None"
    by blast
  from last_ok[OF _ last_reply] have "e = None" by simp
  with run have "SendToElastic example_Marshal example_Unmarshal example_srv example_ctx ''jira'' False ''uuid''
              [example_doc1, example_doc2] [] []
         = (Inr None, tr1, [LogBulkFailed ''jira'' 2])"
    by (simp add: example_ctx_def)
  with example_bulk_payload example_bulk_fails first_fails show ?thesis by blast
qed

section \<open>Pagination engine: the requests of a run\<close>

lemma page_request_rebuilt:
  "(case (case scroll of
            None \<Rightarrow> search
          | Some sid \<Rightarrow>
              (ESURL ctx @ ''/_search/scroll'',
               ''{\"scroll\":\"'' @ ESScrollWait ctx @ ''\",\"scroll_id\":\"'' @ sid @ ''\"}'')) of
      (url, payload) \<Rightarrow>
        \<lparr>r_method = Post, r_url = url, r_headers = [(''Content-Type'', ''application/json'')],
         r_payload = payload\<rparr>)
   = page_request ctx search scroll"
  by (cases scroll; cases search) (simp_all add: page_request_def)

lemma page_request_Post: "r_method (page_request ctx search scroll) = Post"
  by (cases scroll) (simp_all add: page_request_def)

lemma ForEachRawItem_iter_unfold:
  assumes "Request Unmarshal srv (fe_trace st) (r_url (page_request ctx search (fe_scroll st))) Post
             [(''Content-Type'', ''application/json'')] (r_payload (page_request ctx search (fe_scroll st)))
             [(200, 200)] [] [(200, 200), (500, 500)] = ((res, status, err), tr1)"
  shows "ForEachRawItem_iter Unmarshal srv ctx search TooManyScrolls elapsed process st =
     (let st1 = st\<lparr>fe_trace := tr1\<rparr>
      in case err of
           Some e \<Rightarrow> Exit (Stopped (Fatal ''FatalOnError'')) st1
         | None \<Rightarrow>
             (let after_retry_check =
                    (case res of
                       IMap m \<Rightarrow>
                         (case map_of m ''_scroll_id'' of
                            Some (IStr sScroll) \<Rightarrow>
                              (let st2 = st1\<lparr>fe_scroll := Some sScroll\<rparr> in
                               case map_of m ''hits'' of
                                 Some (IMap hm) \<Rightarrow>
                                   (case map_of hm ''hits'' of
                                      Some (IArr items) \<Rightarrow>
                                        (if length items = 0 then Break st2
                                         else
                                           (case process items (fe_proc st2) of
                                              (Some ex, p) \<Rightarrow> Exit ex (st2\<lparr>fe_proc := p\<rparr>)
                                            | (None, p) \<Rightarrow>
                                                Continue (st2\<lparr>fe_proc := p, fe_total := fe_total st2 + length items\<rparr>)))
                                    | _ \<Rightarrow> Exit (Return (Some MissingHits)) st2)
                               | _ \<Rightarrow> Exit (Stopped (Panic ''interface conversion: hits is not map[string]interface {}'')) st2)
                          | _ \<Rightarrow> Exit (Return (Some MissingScrollID)) st1)
                     | _ \<Rightarrow> Exit (Stopped (Panic ''interface conversion: res is not map[string]interface {}'')) st1)
              in
              if fe_scroll st = None \<and> status = 500 then
                (case res of
                   IBytes body \<Rightarrow>
                     (if Contains body TooManyScrolls then
                        (case res of
                           IMap m \<Rightarrow>
                             (if elapsed (length tr1) > ESScrollWaitSecs ctx
                              then Exit (Stopped (Fatal ''Tried to acquire scroll too many times'')) st1
                              else Continue st1)
                         | _ \<Rightarrow> Exit (Stopped (Panic ''interface conversion: res is not map[string]interface {}'')) st1)
                      else after_retry_check)
                 | _ \<Rightarrow> Exit (Stopped (Panic ''interface conversion: res is not []uint8'')) st1)
              else after_retry_check))"
proof (cases "fe_scroll st")
  case None
  with assms show ?thesis
    unfolding ForEachRawItem_iter_def
    by (cases search) (simp add: page_request_def Let_def)
next
  case (Some sid)
  with assms show ?thesis
    unfolding ForEachRawItem_iter_def
    by (cases search) (simp add: page_request_def Let_def)
qed

lemma page_request_record:
  "\<lparr>r_method = Post, r_url = r_url (page_request ctx search scroll),
     r_headers = [(''Content-Type'', ''application/json'')],
     r_payload = r_payload (page_request ctx search scroll)\<rparr> = page_request ctx search scroll"
  by (cases scroll) (simp_all add: page_request_def)

lemma ForEachRawItem_iter_trace:
  "fe_trace (step_state (ForEachRawItem_iter Unmarshal srv ctx search TooManyScrolls elapsed process st))
     = fe_trace st @ [page_request ctx search (fe_scroll st)]"
proof -
  obtain res status err tr1 where
    r: "Request Unmarshal srv (fe_trace st) (r_url (page_request ctx search (fe_scroll st))) Post
             [(''Content-Type'', ''application/json'')] (r_payload (page_request ctx search (fe_scroll st)))
             [(200, 200)] [] [(200, 200), (500, 500)] = ((res, status, err), tr1)"
    by (metis prod_cases3 surj_pair)
  from r Request_trace[of Unmarshal srv "fe_trace st" "r_url (page_request ctx search (fe_scroll st))" Post
                          "[(''Content-Type'', ''application/json'')]"
                          "r_payload (page_request ctx search (fe_scroll st))"
                          "[(200, 200)]" "[]" "[(200, 200), (500, 500)]"]
  have tr1: "tr1 = fe_trace st @ [page_request ctx search (fe_scroll st)]"
    by (simp add: page_request_record)
  show ?thesis
    unfolding ForEachRawItem_iter_unfold[OF r] tr1
    by (simp add: Let_def split: option.splits iface.splits prod.splits)
qed

lemma ForEachRawItem_loop_trace:
  assumes "ForEachRawItem_loop fuel (ForEachRawItem_iter Unmarshal srv ctx search TooManyScrolls elapsed process)
             finish st = Some (ex, st1)"
  shows "\<exists>made. fe_trace st1 = fe_trace st @ made \<and> (\<forall>req \<in> set made. r_method req = Post)"
  using assms
proof (induction fuel arbitrary: st)
  case 0
  then show ?case by simp
next
  case (Suc fuel)
  define step where "step = ForEachRawItem_iter Unmarshal srv ctx search TooManyScrolls elapsed process st"
  have tr: "fe_trace (step_state step) = fe_trace st @ [page_request ctx search (fe_scroll st)]"
    unfolding step_def by (rule ForEachRawItem_iter_trace)
  show ?case
  proof (cases step)
    case (Continue st2)
    with Suc.prems have "ForEachRawItem_loop fuel
        (ForEachRawItem_iter Unmarshal srv ctx search TooManyScrolls elapsed process) finish st2 = Some (ex, st1)"
      by (simp add: step_def[symmetric])
    from Suc.IH[OF this] obtain made where
      made: "fe_trace st1 = fe_trace st2 @ made" "\<forall>req \<in> set made. r_method req = Post"
      by blast
    from tr Continue have "fe_trace st2 = fe_trace st @ [page_request ctx search (fe_scroll st)]"
      by simp
    with made have "fe_trace st1 = fe_trace st @ (page_request ctx search (fe_scroll st) # made)"
      "\<forall>req \<in> set (page_request ctx search (fe_scroll st) # made). r_method req = Post"
      by (simp_all add: page_request_Post)
    then show ?thesis by blast
  next
    case (Break st2)
    with Suc.prems have "fe_trace st1 = fe_trace st2"
      by (auto simp: step_def[symmetric] split: prod.splits)
    with tr Break have "fe_trace st1 = fe_trace st @ [page_request ctx search (fe_scroll st)]"
      "\<forall>req \<in> set [page_request ctx search (fe_scroll st)]. r_method req = Post"
      by (simp_all add: page_request_Post)
    then show ?thesis by blast
  next
    case (Exit ex2 st2)
    with Suc.prems have "st1 = st2"
      by (simp add: step_def[symmetric])
    with tr Exit have "fe_trace st1 = fe_trace st @ [page_request ctx search (fe_scroll st)]"
      "\<forall>req \<in> set [page_request ctx search (fe_scroll st)]. r_method req = Post"
      by (simp_all add: page_request_Post)
    then show ?thesis by blast
  qed
qed

lemma free_scroll_open:
  "fe_scroll st = Some sid \<Longrightarrow> free_scroll Unmarshal srv ctx st = fe_trace st @ [release_request ctx sid]"
  by (simp add: free_scroll_def Request_trace release_request_def)

lemma free_scroll_closed:
  "fe_scroll st = None \<Longrightarrow> free_scroll Unmarshal srv ctx st = fe_trace st"
  by (simp add: free_scroll_def)

lemma ForEachRawItem_first_reply:
  assumes "srv tr0 (page_request ctx search None) = Response s body"
  shows "Request Unmarshal srv tr0 (r_url (page_request ctx search None)) Post
             [(''Content-Type'', ''application/json'')] (r_payload (page_request ctx search None))
             [(200, 200)] [] [(200, 200), (500, 500)]
         = ((case (if s = 200 then Unmarshal body else Some (IBytes body)) of
               None \<Rightarrow> (INil, s, Some UnmarshalErr)
             | Some result \<Rightarrow> (result, s, if s = 200 \<or> s = 500 then None else Some StatusNotSuccessErr)),
            tr0 @ [page_request ctx search None])"
proof -
  from assms have reply: "srv tr0 \<lparr>r_method = Post, r_url = r_url (page_request ctx search None),
      r_headers = [(''Content-Type'', ''application/json'')],
      r_payload = r_payload (page_request ctx search None)\<rparr> = Response s body"
    by (simp add: page_request_record)
  note eq = Request_on_response[where srv = srv and tr = tr0 and meth = Post
      and url = "r_url (page_request ctx search None)"
      and headers = "[(''Content-Type'', ''application/json'')]"
      and payload = "r_payload (page_request ctx search None)" and s = s and body = body
      and Unmarshal = Unmarshal and jsonStatuses = "[(200, 200)]" and errorStatuses = "[]"
      and okStatuses = "[(200, 200), (500, 500)]"]
  show ?thesis
    unfolding eq[OF reply] by (auto simp: page_request_record split: option.splits)
qed

lemma ForEachRawItem_quota_exhausted:
  assumes reply: "srv tr0 (page_request ctx search None) = Response 500 body"
      and marker: "Contains body TooManyScrolls"
  shows "ForEachRawItem_body (Suc fuel) Unmarshal srv ctx search TooManyScrolls elapsed process finish p0 tr0
       = Some (Stopped (Panic ''interface conversion: res is not map[string]interface {}''),
               \<lparr>fe_scroll = None, fe_proc = p0, fe_total = 0, fe_trace = tr0 @ [page_request ctx search None]\<rparr>)"
proof -
  define st0 :: "'a fe_state" where "st0 = \<lparr>fe_scroll = None, fe_proc = p0, fe_total = 0, fe_trace = tr0\<rparr>"
  have r: "Request Unmarshal srv (fe_trace st0) (r_url (page_request ctx search (fe_scroll st0))) Post
             [(''Content-Type'', ''application/json'')] (r_payload (page_request ctx search (fe_scroll st0)))
             [(200, 200)] [] [(200, 200), (500, 500)]
           = ((IBytes body, 500, None), tr0 @ [page_request ctx search None])"
    using ForEachRawItem_first_reply[where srv = srv and Unmarshal = Unmarshal, OF reply] by (simp add: st0_def)
  have "ForEachRawItem_iter Unmarshal srv ctx search TooManyScrolls elapsed process st0
      = Exit (Stopped (Panic ''interface conversion: res is not map[string]interface {}''))
          (st0\<lparr>fe_trace := tr0 @ [page_request ctx search None]\<rparr>)"
    unfolding ForEachRawItem_iter_unfold[OF r] using marker by (simp add: st0_def)
  then show ?thesis
    by (simp add: ForEachRawItem_body_def st0_def)
qed

lemma ForEachRawItem_first_page_empty:
  assumes reply: "srv tr0 (page_request ctx search None) = Response 200 body"
      and decoded: "Unmarshal body = Some (IMap m)"
      and scroll: "map_of m ''_scroll_id'' = Some (IStr sid)"
      and hits: "map_of m ''hits'' = Some (IMap hm)" "map_of hm ''hits'' = Some (IArr [])"
  shows "ForEachRawItem_body (Suc fuel) Unmarshal srv ctx search TooManyScrolls elapsed process finish p0 tr0
       = Some (fst (finish p0),
               \<lparr>fe_scroll = Some sid, fe_proc = snd (finish p0), fe_total = 0,
                 fe_trace = tr0 @ [page_request ctx search None]\<rparr>)"
proof -
  define st0 :: "'a fe_state" where "st0 = \<lparr>fe_scroll = None, fe_proc = p0, fe_total = 0, fe_trace = tr0\<rparr>"
  have r: "Request Unmarshal srv (fe_trace st0) (r_url (page_request ctx search (fe_scroll st0))) Post
             [(''Content-Type'', ''application/json'')] (r_payload (page_request ctx search (fe_scroll st0)))
             [(200, 200)] [] [(200, 200), (500, 500)]
           = ((IMap m, 200, None), tr0 @ [page_request ctx search None])"
    using ForEachRawItem_first_reply[where srv = srv and Unmarshal = Unmarshal, OF reply] decoded by (simp add: st0_def)
  have "ForEachRawItem_iter Unmarshal srv ctx search TooManyScrolls elapsed process st0
      = Break (st0\<lparr>fe_trace := tr0 @ [page_request ctx search None], fe_scroll := Some sid\<rparr>)"
    unfolding ForEachRawItem_iter_unfold[OF r] using scroll hits by (simp add: st0_def)
  then show ?thesis
    by (simp add: ForEachRawItem_body_def st0_def split: prod.splits)
qed

text \<open>
  Claim C8. Take a run of \<^verbatim>\<open>ForEachRawItem\<close> whose body ends, by a return (with or
  without an error) or a panic, or by a fatal stop that unwinds the stack, in a state where the
  scroll \<open>sid\<close> is open. Then the requests that the call has made are page requests (POST)
  followed by one request more, the last one: the release (DELETE) of \<open>sid\<close>. In
  particular, when the answer to the scroll-opening search is a page with the scroll \<open>sid\<close>
  and no hits, the synchronous run on empty buffers returns nil after two requests: the search
  and the release of \<open>sid\<close>.
\<close>

theorem ForEachRawItem_releases_scroll_once:
  "(\<forall>ex st sid.
       ForEachRawItem_body fuel Unmarshal srv ctx search TooManyScrolls elapsed process finish p0 tr0 = Some (ex, st)
       \<and> fe_scroll st = Some sid \<and> runs_deferred fatal_unwinds ex
       \<longrightarrow> (\<exists>made. (\<forall>req \<in> set made. r_method req = Post)
                  \<and> ForEachRawItem fuel fatal_unwinds Unmarshal srv ctx search TooManyScrolls elapsed
                       process finish p0 tr0
                     = Some (ex, fe_proc st, tr0 @ made @ [release_request ctx sid])))
   \<and> (\<forall>body m sid hm.
       srv tr0 (page_request ctx search None) = Response 200 body
       \<and> Unmarshal body = Some (IMap m) \<and> map_of m ''_scroll_id'' = Some (IStr sid)
       \<and> map_of m ''hits'' = Some (IMap hm) \<and> map_of hm ''hits'' = Some (IArr [])
       \<longrightarrow> ForEachRawItem (Suc fuel) fatal_unwinds Unmarshal srv ctx search TooManyScrolls elapsed
             (process_sync uitems ufunct packSize) (finish_sync ufunct) ([], []) tr0
           = Some (Return None, ([], []), tr0 @ [page_request ctx search None, release_request ctx sid]))"
proof (intro conjI allI impI)
  fix ex and st :: "'a fe_state" and sid
  assume a: "ForEachRawItem_body fuel Unmarshal srv ctx search TooManyScrolls elapsed process finish p0 tr0 = Some (ex, st)
       \<and> fe_scroll st = Some sid \<and> runs_deferred fatal_unwinds ex"
  then have body: "ForEachRawItem_loop fuel
        (ForEachRawItem_iter Unmarshal srv ctx search TooManyScrolls elapsed process) finish
        \<lparr>fe_scroll = None, fe_proc = p0, fe_total = 0, fe_trace = tr0\<rparr> = Some (ex, st)"
    by (simp add: ForEachRawItem_body_def)
  from ForEachRawItem_loop_trace[OF body] obtain made where
    made: "fe_trace st = tr0 @ made" "\<forall>req \<in> set made. r_method req = Post"
    by auto
  from a have "ForEachRawItem fuel fatal_unwinds Unmarshal srv ctx search TooManyScrolls elapsed
                       process finish p0 tr0
                     = Some (ex, fe_proc st, fe_trace st @ [release_request ctx sid])"
    by (simp add: ForEachRawItem_def free_scroll_open)
  with made show "\<exists>made. (\<forall>req \<in> set made. r_method req = Post)
                  \<and> ForEachRawItem fuel fatal_unwinds Unmarshal srv ctx search TooManyScrolls elapsed
                       process finish p0 tr0
                     = Some (ex, fe_proc st, tr0 @ made @ [release_request ctx sid])"
    by auto
next
  fix body m sid hm
  assume a: "srv tr0 (page_request ctx search None) = Response 200 body
       \<and> Unmarshal body = Some (IMap m) \<and> map_of m ''_scroll_id'' = Some (IStr sid)
       \<and> map_of m ''hits'' = Some (IMap hm) \<and> map_of hm ''hits'' = Some (IArr [])"
  then have reply: "srv tr0 (page_request ctx search None) = Response 200 body"
    and decoded: "Unmarshal body = Some (IMap m)"
    and scroll: "map_of m ''_scroll_id'' = Some (IStr sid)"
    and hits: "map_of m ''hits'' = Some (IMap hm)" "map_of hm ''hits'' = Some (IArr [])"
    by blast+
  note first = ForEachRawItem_first_page_empty[where srv = srv and Unmarshal = Unmarshal,
      OF reply decoded scroll hits]
  show "ForEachRawItem (Suc fuel) fatal_unwinds Unmarshal srv ctx search TooManyScrolls elapsed
             (process_sync uitems ufunct packSize) (finish_sync ufunct) ([], []) tr0
           = Some (Return None, ([], []), tr0 @ [page_request ctx search None, release_request ctx sid])"
    unfolding ForEachRawItem_def first
    by (simp add: finish_sync_def free_scroll_open)
qed

text \<open>
  The theorem at the example server that answers the search with an empty page and the scroll
  \<open>s1\<close>: the body returns nil with \<open>s1\<close> open, and the requests of the call are the
  search and the release of \<open>s1\<close>.
\<close>

theorem ForEachRawItem_releases_scroll_once_witness:
  "example_empty_srv [] (page_request example_ctx example_search None) = Response 200 ''page''
   \<and> example_page_Unmarshal ''page''
       = Some (IMap [(''_scroll_id'', IStr ''s1''), (''hits'', IMap [(''hits'', IArr [])])])
   \<and> ForEachRawItem_body (Suc 0) example_page_Unmarshal example_empty_srv example_ctx example_search
        example_TooManyScrolls (\<lambda>n. 0) (process_sync example_uitems example_ufunct 10)
        (finish_sync example_ufunct) ([], []) []
      = Some (Return None,
              \<lparr>fe_scroll = Some ''s1'', fe_proc = ([], []), fe_total = 0,
                fe_trace = [page_request example_ctx example_search None]\<rparr>)
   \<and> runs_deferred False (Return None)
   \<and> ForEachRawItem (Suc 0) False example_page_Unmarshal example_empty_srv example_ctx example_search
        example_TooManyScrolls (\<lambda>n. 0) (process_sync example_uitems example_ufunct 10)
        (finish_sync example_ufunct) ([], []) []
      = Some (Return None, ([], []),
              [page_request example_ctx example_search None, release_request example_ctx ''s1''])"
proof -
  have reply: "example_empty_srv [] (page_request example_ctx example_search None) = Response 200 ''page''"
    by (simp add: example_empty_srv_def page_request_def)
  have decoded: "example_page_Unmarshal ''page''
       = Some (IMap [(''_scroll_id'', IStr ''s1''), (''hits'', IMap [(''hits'', IArr [])])])"
    by (simp add: example_page_Unmarshal_def)
  have scroll: "map_of [(''_scroll_id'', IStr ''s1''), (''hits'', IMap [(''hits'', IArr [])])] ''_scroll_id''
       = Some (IStr ''s1'')"
    by simp
  have hits: "map_of [(''_scroll_id'', IStr ''s1''), (''hits'', IMap [(''hits'', IArr [])])] ''hits''
       = Some (IMap [(''hits'', IArr [])])"
      "map_of [(''hits'', IArr [])] ''hits'' = Some (IArr [])"
    by simp_all
  have body: "ForEachRawItem_body (Suc 0) example_page_Unmarshal example_empty_srv example_ctx example_search
        example_TooManyScrolls (\<lambda>n. 0) (process_sync example_uitems example_ufunct 10)
        (finish_sync example_ufunct) ([], []) []
      = Some (Return None,
              \<lparr>fe_scroll = Some ''s1'', fe_proc = ([], []), fe_total = 0,
                fe_trace = [page_request example_ctx example_search None]\<rparr>)"
    using ForEachRawItem_first_page_empty[where srv = example_empty_srv and Unmarshal = example_page_Unmarshal,
        OF reply decoded scroll hits, of 0 example_TooManyScrolls "\<lambda>n. 0"
        "process_sync example_uitems example_ufunct 10" "finish_sync example_ufunct" "([], [])"]
    by (simp add: finish_sync_def)
  have unw: "runs_deferred False (Return None)" by simp
  note C8 = ForEachRawItem_releases_scroll_once[where srv = example_empty_srv
      and Unmarshal = example_page_Unmarshal and ctx = example_ctx and search = example_search
      and ?tr0.0 = "[]" and fuel = 0 and fatal_unwinds = False and TooManyScrolls = example_TooManyScrolls
      and elapsed = "\<lambda>n. 0" and uitems = example_uitems and ufunct = example_ufunct and packSize = 10
      and process = "process_sync example_uitems example_ufunct 10"
      and finish = "finish_sync example_ufunct" and ?p0.0 = "([], [])"]
  note C8_general = ForEachRawItem_releases_scroll_once[where srv = example_empty_srv
      and Unmarshal = example_page_Unmarshal and ctx = example_ctx and search = example_search
      and ?tr0.0 = "[]" and fuel = "Suc 0" and fatal_unwinds = False and TooManyScrolls = example_TooManyScrolls
      and elapsed = "\<lambda>n. 0" and uitems = example_uitems and ufunct = example_ufunct and packSize = 10
      and process = "process_sync example_uitems example_ufunct 10"
      and finish = "finish_sync example_ufunct" and ?p0.0 = "([], [])"]
  from C8_general body unw
  obtain made where "\<forall>req \<in> set made. r_method req = Post"
    "ForEachRawItem (Suc 0) False example_page_Unmarshal example_empty_srv example_ctx example_search
        example_TooManyScrolls (\<lambda>n. 0) (process_sync example_uitems example_ufunct 10)
        (finish_sync example_ufunct) ([], []) []
      = Some (Return None, ([], []), [] @ made @ [release_request example_ctx ''s1''])"
    by fastforce
  from C8 reply decoded scroll hits
  have "ForEachRawItem (Suc 0) False example_page_Unmarshal example_empty_srv example_ctx example_search
        example_TooManyScrolls (\<lambda>n. 0) (process_sync example_uitems example_ufunct 10)
        (finish_sync example_ufunct) ([], []) []
      = Some (Return None, ([], []),
              [] @ [page_request example_ctx example_search None, release_request example_ctx ''s1''])"
    by blast
  with reply decoded body unw show ?thesis by simp
qed

text \<open>
  Claim C6 against the code. When the answer to the scroll-opening search is a status 500 whose
  body holds the too-many-scrolls marker, the run makes no second attempt: the line that
  announces the retry evaluates \<^verbatim>\<open>len(res.(map[string]interface{}))\<close> while \<open>res\<close>
  holds the raw bytes of the body, so the run panics after its one request, whatever fuel and
  wait budget it has. No scroll is open, so the deferred call makes no request.
\<close>

theorem ForEachRawItem_scroll_quota_panics:
  assumes reply: "srv tr0 (page_request ctx search None) = Response 500 body"
      and marker: "Contains body TooManyScrolls"
  shows "ForEachRawItem (Suc fuel) fatal_unwinds Unmarshal srv ctx search TooManyScrolls elapsed
           process finish p0 tr0
         = Some (Stopped (Panic ''interface conversion: res is not map[string]interface {}''),
                 p0, tr0 @ [page_request ctx search None])"
  unfolding ForEachRawItem_def
    ForEachRawItem_quota_exhausted[where srv = srv and Unmarshal = Unmarshal, OF reply marker]
  by (simp add: free_scroll_closed)

text \<open>The theorem at the example server that reports the exhausted quota, with fuel for a
  hundred more iterations and a wait budget of 600 seconds of which none has passed.\<close>

theorem ForEachRawItem_scroll_quota_panics_witness:
  "example_busy_srv [] (page_request example_ctx example_search None)
     = Response 500 ''search_context_exception: Trying to create too many scroll contexts. Must be less than 500''
   \<and> Contains ''search_context_exception: Trying to create too many scroll contexts. Must be less than 500''
        example_TooManyScrolls
   \<and> ForEachRawItem (Suc 100) True example_page_Unmarshal example_busy_srv example_ctx example_search
        example_TooManyScrolls (\<lambda>n. 0) (process_sync example_uitems example_ufunct 10)
        (finish_sync example_ufunct) ([], []) []
      = Some (Stopped (Panic ''interface conversion: res is not map[string]interface {}''),
              ([], []), [page_request example_ctx example_search None])"
proof -
  have reply: "example_busy_srv [] (page_request example_ctx example_search None)
     = Response 500 ''search_context_exception: Trying to create too many scroll contexts. Must be less than 500''"
    by (simp add: example_busy_srv_def)
  have marker: "Contains ''search_context_exception: Trying to create too many scroll contexts. Must be less than 500''
        example_TooManyScrolls"
    by (simp add: example_TooManyScrolls_def)
  from ForEachRawItem_scroll_quota_panics[where srv = example_busy_srv and Unmarshal = example_page_Unmarshal,
      OF reply marker, of 100 True "\<lambda>n. 0" "process_sync example_uitems example_ufunct 10"
      "finish_sync example_ufunct" "([], [])"]
  have "ForEachRawItem (Suc 100) True example_page_Unmarshal example_busy_srv example_ctx example_search
        example_TooManyScrolls (\<lambda>n. 0) (process_sync example_uitems example_ufunct 10)
        (finish_sync example_ufunct) ([], []) []
      = Some (Stopped (Panic ''interface conversion: res is not map[string]interface {}''),
              ([], []), [] @ [page_request example_ctx example_search None])" .
  with reply marker show ?thesis by simp
qed

section \<open>Identity resolver: a lookup without a match\<close>





section \<open>Identity resolver: the affiliation items in the rich document\<close>









section \<open>Identity resolver: a lookup without a match returns\<close>













section \<open>Identity resolver: the fields of a role without a match\<close>







end
